theory Spec2Isabelle
  imports Complex_Main
begin

section \<open>JavaScript values used by the token utilities\<close>

text \<open>
  Strings are lists of characters; the development covers strings of ASCII characters
  (one \<^typ>\<open>char\<close> per UTF-16 code unit below 128).  A \<open>bigint\<close> is an \<^typ>\<open>int\<close>.
  A thrown exception is the left summand of the result: the \<open>SyntaxError\<close> that
  \<open>BigInt(string)\<close> raises on malformed text is what the specification calls
  \<open>InvalidAmount\<close>.  Token decimals are natural numbers.
\<close>

datatype js_error = SyntaxError | RangeError | TypeError

definition isDigit :: "char \<Rightarrow> bool" where
  "isDigit c = (48 \<le> (of_char c :: nat) \<and> (of_char c :: nat) \<le> 57)"

definition digitValue :: "char \<Rightarrow> nat" where
  "digitValue c = of_char c - 48"

text \<open>The regular expression \<^verbatim>\<open>/^\d+$/\<close>: one or more ASCII digits, nothing else.\<close>

definition matchesDigits :: "string \<Rightarrow> bool" where
  "matchesDigits s = (s \<noteq> [] \<and> list_all isDigit s)"

definition digitsValue :: "string \<Rightarrow> nat" where
  "digitsValue s = foldl (\<lambda>acc c. acc * 10 + digitValue c) 0 s"

text \<open>White space and line terminators of ECMAScript that are ASCII: TAB, LF, VT, FF, CR, SP.\<close>

definition isWhiteSpace :: "char \<Rightarrow> bool" where
  "isWhiteSpace c = ((of_char c :: nat) \<in> {9, 10, 11, 12, 13, 32})"

definition trimString :: "string \<Rightarrow> string" where
  "trimString s = rev (dropWhile isWhiteSpace (rev (dropWhile isWhiteSpace s)))"

text \<open>Digits of the hexadecimal, octal and binary literals that \<open>BigInt(string)\<close> accepts.\<close>

definition radixDigitValue :: "char \<Rightarrow> nat option" where
  "radixDigitValue c =
     (let n = (of_char c :: nat) in
      if 48 \<le> n \<and> n \<le> 57 then Some (n - 48)
      else if 97 \<le> n \<and> n \<le> 102 then Some (n - 87)
      else if 65 \<le> n \<and> n \<le> 70 then Some (n - 55)
      else None)"

definition isRadixDigit :: "nat \<Rightarrow> char \<Rightarrow> bool" where
  "isRadixDigit r c = (case radixDigitValue c of None \<Rightarrow> False | Some v \<Rightarrow> v < r)"

definition radixValue :: "nat \<Rightarrow> string \<Rightarrow> nat" where
  "radixValue r s =
     foldl (\<lambda>acc c. acc * r + (case radixDigitValue c of None \<Rightarrow> 0 | Some v \<Rightarrow> v)) 0 s"

definition decimalBigInt :: "string \<Rightarrow> js_error + int" where
  "decimalBigInt ds = (if matchesDigits ds then Inr (int (digitsValue ds)) else Inl SyntaxError)"

definition nonDecimalBigInt :: "nat \<Rightarrow> string \<Rightarrow> js_error + int" where
  "nonDecimalBigInt r ds =
     (if ds \<noteq> [] \<and> list_all (isRadixDigit r) ds then Inr (int (radixValue r ds))
      else Inl SyntaxError)"

text \<open>
  \<open>BigInt(s)\<close> for a string \<open>s\<close> (StringToBigInt): the text is trimmed; the empty text
  is \<open>0n\<close>; otherwise it is an optionally signed run of decimal digits or an unsigned
  \<open>0x\<close>, \<open>0o\<close> or \<open>0b\<close> literal; anything else throws a SyntaxError.
\<close>

definition BigInt_string :: "string \<Rightarrow> js_error + int" where
  "BigInt_string s =
     (case trimString s of
        [] \<Rightarrow> Inr 0
      | c # r \<Rightarrow>
          if c = CHR ''+'' then decimalBigInt r
          else if c = CHR ''-'' then map_sum id uminus (decimalBigInt r)
          else (case r of
                  [] \<Rightarrow> decimalBigInt [c]
                | p # ds \<Rightarrow>
                    if c = CHR ''0'' \<and> (p = CHR ''x'' \<or> p = CHR ''X'') then nonDecimalBigInt 16 ds
                    else if c = CHR ''0'' \<and> (p = CHR ''o'' \<or> p = CHR ''O'') then nonDecimalBigInt 8 ds
                    else if c = CHR ''0'' \<and> (p = CHR ''b'' \<or> p = CHR ''B'') then nonDecimalBigInt 2 ds
                    else decimalBigInt (c # r)))"

text \<open>\<open>BigInt.prototype.toString()\<close>: decimal digits, a minus sign for negatives.\<close>

definition digitChar :: "nat \<Rightarrow> char" where
  "digitChar n = ''0123456789'' ! n"

fun natToString :: "nat \<Rightarrow> string" where
  "natToString n =
     (if n < 10 then [digitChar n] else natToString (n div 10) @ [digitChar (n mod 10)])"

definition bigintToString :: "int \<Rightarrow> string" where
  "bigintToString i = (if i < 0 then CHR ''-'' # natToString (nat (- i)) else natToString (nat i))"

text \<open>Division and remainder of bigints truncate towards zero.\<close>

definition bigintDiv :: "int \<Rightarrow> int \<Rightarrow> int" where
  "bigintDiv a b = sgn a * sgn b * (abs a div abs b)"

definition bigintRem :: "int \<Rightarrow> int \<Rightarrow> int" where
  "bigintRem a b = sgn a * (abs a mod abs b)"

text \<open>
  The Number \<open>10 ** decimals\<close> is a binary64 value.  It is modelled as the binary64
  nearest to the power of ten (ties to even), \<open>None\<close> standing for \<open>Infinity\<close>:
  \<open>excessBits n\<close> counts the low bits of \<open>n\<close> that do not fit the 53-bit significand.
  Powers up to \<open>10 ** 22\<close> are exact; from \<open>10 ** 23\<close> on the Number is not the power of
  ten any more.  Exponentiation of Numbers is implementation-approximated: above
  \<open>10 ** 22\<close> an engine may return a binary64 next to the nearest one, so the model is
  used up to \<open>10 ** 23\<close> only, where either neighbour differs from the power of ten.
  \<open>BigInt(number)\<close> throws a RangeError on \<open>Infinity\<close>.
\<close>

fun excessBits :: "nat \<Rightarrow> nat" where
  "excessBits n = (if n < 2 ^ 53 then 0 else Suc (excessBits (n div 2)))"

definition roundBinary64 :: "nat \<Rightarrow> nat option" where
  "roundBinary64 n =
     (let k = excessBits n; q = n div 2 ^ k; r = n mod 2 ^ k;
          m = (if 2 ^ k < 2 * r \<or> (2 * r = 2 ^ k \<and> odd q) then q + 1 else q)
      in if 2 ^ 1024 \<le> m * 2 ^ k then None else Some (m * 2 ^ k))"

definition numberPow10 :: "nat \<Rightarrow> nat option" where
  "numberPow10 d = roundBinary64 (10 ^ d)"

definition BigInt_number :: "nat option \<Rightarrow> js_error + int" where
  "BigInt_number x = (case x of None \<Rightarrow> Inl RangeError | Some v \<Rightarrow> Inr (int v))"

text \<open>String methods: \<open>split(sep)\<close>, \<open>padEnd\<close>, \<open>padStart\<close>, \<open>replace(/0+$/, '')\<close>,
  \<open>toUpperCase\<close>.  \<open>slice(0, n)\<close> is \<^const>\<open>take\<close>, \<open>charAt(0)\<close> is \<open>take 1\<close> and
  \<open>slice(1)\<close> is \<open>drop 1\<close>.\<close>

fun js_split :: "char \<Rightarrow> string \<Rightarrow> string list" where
  "js_split sep [] = [[]]"
| "js_split sep (c # cs) =
     (if c = sep then [] # js_split sep cs
      else (case js_split sep cs of [] \<Rightarrow> [[c]] | p # ps \<Rightarrow> (c # p) # ps))"

definition padEnd :: "nat \<Rightarrow> char \<Rightarrow> string \<Rightarrow> string" where
  "padEnd n c s = s @ replicate (n - length s) c"

definition padStart :: "nat \<Rightarrow> char \<Rightarrow> string \<Rightarrow> string" where
  "padStart n c s = replicate (n - length s) c @ s"

definition stripTrailingZeros :: "string \<Rightarrow> string" where
  "stripTrailingZeros s = rev (dropWhile (\<lambda>c. c = CHR ''0'') (rev s))"

definition upperChar :: "char \<Rightarrow> char" where
  "upperChar c =
     (let n = (of_char c :: nat) in if 97 \<le> n \<and> n \<le> 122 then char_of (n - 32) else c)"

definition toUpperCase :: "string \<Rightarrow> string" where
  "toUpperCase s = map upperChar s"

text \<open>
  \<open>parseFloat\<close>: leading white space is skipped and the longest prefix that is a
  StrDecimalLiteral is read (\<open>NaN\<close> if there is none).  A finite result is kept as the
  exact rational the literal denotes; the rounding to binary64 is accounted for where
  the Number is compared.
\<close>

datatype number = NaN | PlusInfinity | MinusInfinity | Fin rat

definition exponentPart :: "string \<Rightarrow> int" where
  "exponentPart r =
     (case r of
        [] \<Rightarrow> 0
      | e # r' \<Rightarrow>
          if e = CHR ''e'' \<or> e = CHR ''E'' then
            (case r' of
               [] \<Rightarrow> 0
             | s # r'' \<Rightarrow>
                 if s = CHR ''+'' then int (digitsValue (takeWhile isDigit r''))
                 else if s = CHR ''-'' then - int (digitsValue (takeWhile isDigit r''))
                 else int (digitsValue (takeWhile isDigit r')))
          else 0)"

definition scale10 :: "nat \<Rightarrow> int \<Rightarrow> rat" where
  "scale10 m e = (if 0 \<le> e then of_nat m * 10 ^ nat e else of_nat m / 10 ^ nat (- e))"

definition strUnsignedDecimalLiteral :: "string \<Rightarrow> number" where
  "strUnsignedDecimalLiteral s =
     (if take 8 s = ''Infinity'' then PlusInfinity
      else
        let intDigits = takeWhile isDigit s;
            r1 = dropWhile isDigit s;
            hasDot = (case r1 of [] \<Rightarrow> False | c # _ \<Rightarrow> c = CHR ''.'');
            fracDigits = (if hasDot then takeWhile isDigit (tl r1) else []);
            r2 = (if hasDot then dropWhile isDigit (tl r1) else r1)
        in if intDigits = [] \<and> fracDigits = [] then NaN
           else Fin (scale10 (digitsValue (intDigits @ fracDigits))
                      (exponentPart r2 - int (length fracDigits))))"

definition negateNumber :: "number \<Rightarrow> number" where
  "negateNumber x =
     (case x of NaN \<Rightarrow> NaN | PlusInfinity \<Rightarrow> MinusInfinity | MinusInfinity \<Rightarrow> PlusInfinity
      | Fin q \<Rightarrow> Fin (- q))"

definition parseFloat :: "string \<Rightarrow> number" where
  "parseFloat s =
     (case dropWhile isWhiteSpace s of
        [] \<Rightarrow> NaN
      | c # r \<Rightarrow>
          if c = CHR ''+'' then strUnsignedDecimalLiteral r
          else if c = CHR ''-'' then negateNumber (strUnsignedDecimalLiteral r)
          else strUnsignedDecimalLiteral (c # r))"

text \<open>
  The comparison \<open>x > 1000000\<close> of a parsed Number.  The literal's value is rounded to
  binary64, to nearest with ties to even.  \<open>1000000\<close> lies in the binade from \<open>2^19\<close> to
  \<open>2^20\<close>, where the 53-bit significand leaves a unit in the last place of \<open>2^-33\<close>: a
  value \<open>q\<close> of that binade rounds to \<open>roundHalfEven (q * 2^33) / 2^33\<close>; a value below
  the binade rounds to at most \<open>2^19\<close> and one above it to at least \<open>2^20\<close> (or to
  \<open>Infinity\<close>).  \<open>NaN > 1000000\<close> is false.
\<close>

definition roundHalfEven :: "rat \<Rightarrow> int" where
  "roundHalfEven x =
     (let f = \<lfloor>x\<rfloor>; r = x - of_int f in
      if r < 1 / 2 then f else if 1 / 2 < r then f + 1 else if even f then f else f + 1)"

definition greaterThan1000000 :: "number \<Rightarrow> bool" where
  "greaterThan1000000 x =
     (case x of NaN \<Rightarrow> False | PlusInfinity \<Rightarrow> True | MinusInfinity \<Rightarrow> False
      | Fin q \<Rightarrow>
          if q < 2 ^ 19 then False
          else if 2 ^ 20 \<le> q then True
          else 1000000 * 2 ^ 33 < roundHalfEven (q * 2 ^ 33))"

section \<open>tokenUtils\<close>

text \<open>
  The functions of the token utilities.  The specification calls \<open>parseTokenAmount\<close>
  \<open>toBaseUnits\<close>, \<open>formatTokenAmount\<close> \<open>toDisplayUnits\<close>, \<open>formatTransactionData\<close>
  \<open>normalizeTransactionAmount\<close> and \<open>createTransactionSummary\<close> \<open>summarize\<close>.
\<close>

record TokenInfo =
  symbol :: string
  decimals :: nat
  address :: "string option"

text \<open>
  \<open>ARBITRUM_TOKENS\<close> is an object literal with five own keys.  The keys inherited from
  \<open>Object.prototype\<close> all contain lower-case letters, and the table is only read at
  upper-cased keys, so the lookup is a lookup among the own keys.
\<close>

definition ARBITRUM_TOKENS :: "(string \<times> TokenInfo) list" where
  "ARBITRUM_TOKENS =
     [(''ETH'', \<lparr>symbol = ''ETH'', decimals = 18, address = None\<rparr>),
      (''USDC'', \<lparr>symbol = ''USDC'', decimals = 6,
         address = Some ''0xaf88d065e77c8cC2239327C5EDb3A432268e5831''\<rparr>),
      (''USDT'', \<lparr>symbol = ''USDT'', decimals = 6,
         address = Some ''0xFd086bC7CD5C481DCC9C85ebE478A1C0b69FCbb9''\<rparr>),
      (''WETH'', \<lparr>symbol = ''WETH'', decimals = 18,
         address = Some ''0x82aF49447D8a07e3bd95BD0d56f35241523fBab1''\<rparr>),
      (''ARB'', \<lparr>symbol = ''ARB'', decimals = 18,
         address = Some ''0x912CE59144191C1204E64559FE8253a0e49E6548''\<rparr>)]"

definition getTokenInfo :: "string \<Rightarrow> TokenInfo" where
  "getTokenInfo s =
     (let upperSymbol = toUpperCase s in
      case map_of ARBITRUM_TOKENS upperSymbol of
        Some t \<Rightarrow> t
      | None \<Rightarrow> \<lparr>symbol = upperSymbol, decimals = 18, address = None\<rparr>)"

text \<open>The first argument of \<open>formatTokenAmount\<close> is a string or a bigint.\<close>

datatype amount_arg = AmountString string | AmountBigInt int

definition formatTokenAmount :: "amount_arg \<Rightarrow> nat \<Rightarrow> js_error + string" where
  "formatTokenAmount amt dec =
     (case (case amt of AmountString s \<Rightarrow> BigInt_string s | AmountBigInt i \<Rightarrow> Inr i) of
        Inl e \<Rightarrow> Inl e
      | Inr amountBigInt \<Rightarrow>
          (case BigInt_number (numberPow10 dec) of
             Inl e \<Rightarrow> Inl e
           | Inr divisor \<Rightarrow>
               if divisor = 0 then Inl RangeError
               else
                 let wholePart = bigintDiv amountBigInt divisor;
                     fractionalPart = bigintRem amountBigInt divisor
                 in if fractionalPart = 0 then Inr (bigintToString wholePart)
                    else
                      let fractionalStr =
                            stripTrailingZeros (padStart dec (CHR ''0'') (bigintToString fractionalPart))
                      in Inr (bigintToString wholePart @ ''.'' @ fractionalStr)))"

text \<open>
  The destructuring \<open>[wholePart = '0', fractionalPart = ''] = amount.split('.')\<close>:
  the first two segments, with the defaults where a segment is missing.
\<close>

definition wholePartOf :: "string \<Rightarrow> string" where
  "wholePartOf amt = (case js_split (CHR ''.'') amt of [] \<Rightarrow> ''0'' | w # _ \<Rightarrow> w)"

definition fractionalPartOf :: "string \<Rightarrow> string" where
  "fractionalPartOf amt = (case js_split (CHR ''.'') amt of _ # f # _ \<Rightarrow> f | _ \<Rightarrow> [])"

definition paddedFractionalOf :: "string \<Rightarrow> nat \<Rightarrow> string" where
  "paddedFractionalOf amt dec = take dec (padEnd dec (CHR ''0'') (fractionalPartOf amt))"

definition parseTokenAmount :: "string \<Rightarrow> nat \<Rightarrow> js_error + int" where
  "parseTokenAmount amt dec =
     (case BigInt_string (wholePartOf amt) of
        Inl e \<Rightarrow> Inl e
      | Inr wholeBigInt \<Rightarrow>
          (case BigInt_string (paddedFractionalOf amt dec) of
             Inl e \<Rightarrow> Inl e
           | Inr fractionalBigInt \<Rightarrow> Inr (wholeBigInt * 10 ^ dec + fractionalBigInt)))"

definition isValidTokenAmount :: "string \<Rightarrow> nat \<Rightarrow> bool" where
  "isValidTokenAmount amt dec =
     (case js_split (CHR ''.'') amt of
        [] \<Rightarrow> False
      | [wholePart] \<Rightarrow> matchesDigits wholePart
      | wholePart # fractionalPart # _ \<Rightarrow>
          matchesDigits wholePart \<and> matchesDigits fractionalPart \<and> length fractionalPart \<le> dec)"

record TransactionStep =
  stepTo :: string
  stepData :: string
  stepValue :: string
  stepChainId :: string

record TransactionData =
  tokenName :: string
  amount :: string
  action :: string
  chainId :: string
  txPlan :: "TransactionStep list"

definition formatTransactionData :: "TransactionData \<Rightarrow> js_error + TransactionData" where
  "formatTransactionData d =
     (let tokenInfo = getTokenInfo (tokenName d);
          numericAmount = parseFloat (amount d)
      in if greaterThan1000000 numericAmount then
           (case js_split (CHR ''.'') (amount d) of
              [] \<Rightarrow> Inl TypeError
            | first # _ \<Rightarrow>
                (case BigInt_string first of
                   Inl e \<Rightarrow> Inl e
                 | Inr b \<Rightarrow>
                     (case formatTokenAmount (AmountBigInt b) (decimals tokenInfo) of
                        Inl e \<Rightarrow> Inl e
                      | Inr formattedAmount \<Rightarrow> Inr (d\<lparr>amount := formattedAmount\<rparr>))))
         else Inr d)"

definition createTransactionSummary :: "TransactionData \<Rightarrow> js_error + string" where
  "createTransactionSummary d =
     (let tokenInfo = getTokenInfo (tokenName d) in
      case formatTransactionData d of
        Inl e \<Rightarrow> Inl e
      | Inr formattedData \<Rightarrow>
          Inr (toUpperCase (take 1 (action formattedData)) @ drop 1 (action formattedData)
               @ '' '' @ amount formattedData @ '' '' @ symbol tokenInfo))"

section \<open>ChatTab: the handlers that drive a transaction plan\<close>

text \<open>
  The component state is the React state of \<open>ChatTab\<close> together with what the wallet hooks
  report: whether a wallet is connected, the active chain, the \<open>sendTransaction\<close> call in
  flight (\<open>isTxPending\<close>; it holds the plan and index its \<open>onSuccess\<close> closure captured) and
  the hashes whose receipt has arrived (\<open>isTxConfirmed\<close> is read off the current \<open>txHash\<close>).
  \<open>planVersion\<close> counts the plans received: each is a new object, which the dependency
  list of the confirmation watcher tells apart even from an equal one.
  Every outward call and every chat message is appended to \<open>effects\<close>, in order.
  Message texts are kept as constructors, not as strings.
\<close>

datatype sender = UserMessage | AssistantMessage | SystemMessage

datatype message_text =
    ConnectWalletFirst
  | SwitchingToArbitrum
  | SwitchedToArbitrum
  | SwitchFailed
  | Typed string
  | AgentText string
  | CouldNotProcess
  | RequestFailed
  | TransactionSummary string
  | PositionSummary
  | SendingStep nat nat
  | StepSentWaiting string
  | FinalStepSent string
  | TransactionFailed
  | TransactionCancelled
  | TransactionConfirmed string

datatype effect =
    AddMessage sender message_text
  | SwitchChain nat
  | Fetch string
  | SendTransaction nat TransactionStep

record ChatState =
  inputValue :: string
  isLoading :: bool
  pendingTransaction :: "TransactionData option"
  planVersion :: nat
  currentTxIndex :: nat
  txHash :: "string option"
  isConnected :: bool
  activeChain :: nat
  sending :: "(TransactionData \<times> nat) option"
  confirmedHashes :: "string list"
  effects :: "effect list"

definition arbitrum_id :: nat where
  "arbitrum_id = 42161"

definition initialState :: ChatState where
  "initialState =
     \<lparr>inputValue = [], isLoading = False, pendingTransaction = None, planVersion = 0,
      currentTxIndex = 0, txHash = None, isConnected = False, activeChain = 1, sending = None,
      confirmedHashes = [], effects = []\<rparr>"

definition addMessage :: "sender \<Rightarrow> message_text \<Rightarrow> ChatState \<Rightarrow> ChatState" where
  "addMessage who m s = s\<lparr>effects := effects s @ [AddMessage who m]\<rparr>"

definition isTxPending :: "ChatState \<Rightarrow> bool" where
  "isTxPending s = (sending s \<noteq> None)"

definition isTxConfirmed :: "ChatState \<Rightarrow> bool" where
  "isTxConfirmed s = (case txHash s of None \<Rightarrow> False | Some h \<Rightarrow> h \<in> set (confirmedHashes s))"

text \<open>
  What the collaborators answer is an argument of the handler that calls them: the
  wallet accepts or rejects the switch request; the agent request fails (\<open>fetch\<close>
  throws, the response is not ok or lacks a field that is read), or replies without
  having completed, or completes with a text and possibly an artifact; the
  \<open>sendTransaction\<close> call returns or throws.
\<close>

datatype switch_outcome = SwitchResolved | SwitchRejected

datatype artifact = PlanArtifact TransactionData | PositionsArtifact | OtherArtifact

datatype agent_reply =
    RequestError
  | NotCompleted
  | CompletedText string
  | CompletedArtifact string artifact

datatype call_outcome = CallReturns | CallThrows

definition receivePlan :: "TransactionData \<Rightarrow> ChatState \<Rightarrow> ChatState" where
  "receivePlan rawTransactionData s =
     (case formatTransactionData rawTransactionData of
        Inl e \<Rightarrow> addMessage SystemMessage RequestFailed s
      | Inr formattedTransactionData \<Rightarrow>
          (case createTransactionSummary formattedTransactionData of
             Inl e \<Rightarrow> addMessage SystemMessage RequestFailed s
           | Inr summary \<Rightarrow>
               (addMessage SystemMessage (TransactionSummary summary) s)
                 \<lparr>pendingTransaction := Some formattedTransactionData,
                  planVersion := planVersion s + 1, currentTxIndex := 0\<rparr>))"

definition handleReply :: "agent_reply \<Rightarrow> ChatState \<Rightarrow> ChatState" where
  "handleReply reply s =
     (case reply of
        RequestError \<Rightarrow> addMessage SystemMessage RequestFailed s
      | NotCompleted \<Rightarrow> addMessage AssistantMessage CouldNotProcess s
      | CompletedText t \<Rightarrow> addMessage AssistantMessage (AgentText t) s
      | CompletedArtifact t a \<Rightarrow>
          (let s1 = addMessage AssistantMessage (AgentText t) s in
           case a of
             PlanArtifact rawTransactionData \<Rightarrow> receivePlan rawTransactionData s1
           | PositionsArtifact \<Rightarrow> addMessage SystemMessage PositionSummary s1
           | OtherArtifact \<Rightarrow> s1))"

definition sendInstruction :: "agent_reply \<Rightarrow> ChatState \<Rightarrow> ChatState" where
  "sendInstruction reply s =
     (let userMessage = trimString (inputValue s);
          s1 = (addMessage UserMessage (Typed userMessage) s)\<lparr>inputValue := [], isLoading := True\<rparr>;
          s2 = s1\<lparr>effects := effects s1 @ [Fetch userMessage]\<rparr>
      in (handleReply reply s2)\<lparr>isLoading := False\<rparr>)"

text \<open>
  \<open>handleSubmit\<close>.  The \<open>switchChain\<close> of \<open>useSwitchChain\<close> is the hook's \<open>mutate\<close> (the
  banner button calls the same function without \<open>await\<close>): it starts the request and
  returns \<open>undefined\<close>.  So \<open>await switchChain(...)\<close> continues at once, whatever the wallet
  answers later, and the \<open>catch\<close> under it, which would add the \<open>SwitchFailed\<close> message
  and return, is never entered: the wallet's answer \<open>sw\<close> is not read.
\<close>

definition handleSubmit :: "switch_outcome \<Rightarrow> agent_reply \<Rightarrow> ChatState \<Rightarrow> ChatState" where
  "handleSubmit sw reply s =
     (if trimString (inputValue s) = [] \<or> isLoading s then s
      else if \<not> isConnected s then addMessage SystemMessage ConnectWalletFirst s
      else if activeChain s \<noteq> arbitrum_id then
        (let s1 = addMessage SystemMessage SwitchingToArbitrum s;
             s2 = s1\<lparr>effects := effects s1 @ [SwitchChain arbitrum_id]\<rparr>
         in sendInstruction reply (addMessage SystemMessage SwitchedToArbitrum s2))
      else sendInstruction reply s)"

text \<open>
  \<open>handleTransactionApprove\<close>.  \<open>BigInt(currentTx.value || '0')\<close> is evaluated inside the
  \<open>try\<close> before the call; the \<open>catch\<close> clears the plan and the index, not the hash.
\<close>

definition catchSendFailure :: "ChatState \<Rightarrow> ChatState" where
  "catchSendFailure s =
     (addMessage SystemMessage TransactionFailed s)\<lparr>pendingTransaction := None, currentTxIndex := 0\<rparr>"

definition handleTransactionApprove :: "call_outcome \<Rightarrow> ChatState \<Rightarrow> ChatState" where
  "handleTransactionApprove outcome s =
     (case pendingTransaction s of
        None \<Rightarrow> s
      | Some plan \<Rightarrow>
          if length (txPlan plan) \<le> currentTxIndex s then s
          else
            (let currentTx = txPlan plan ! currentTxIndex s;
                 s1 = addMessage SystemMessage
                        (SendingStep (currentTxIndex s + 1) (length (txPlan plan))) s
             in case BigInt_string (if stepValue currentTx = [] then ''0'' else stepValue currentTx) of
                  Inl e \<Rightarrow> catchSendFailure s1
                | Inr v \<Rightarrow>
                    (let s2 = s1\<lparr>effects := effects s1 @ [SendTransaction (currentTxIndex s) currentTx]\<rparr>
                     in case outcome of
                          CallThrows \<Rightarrow> catchSendFailure s2
                        | CallReturns \<Rightarrow> s2\<lparr>sending := Some (plan, currentTxIndex s)\<rparr>)))"

text \<open>The \<open>onSuccess\<close> callback of the call in flight, with the hash the wallet returned.\<close>

definition onSuccess :: "string \<Rightarrow> ChatState \<Rightarrow> ChatState" where
  "onSuccess hash s =
     (case sending s of
        None \<Rightarrow> s
      | Some (plan, i) \<Rightarrow>
          (let s1 = s\<lparr>txHash := Some hash, sending := None\<rparr> in
           if i + 1 < length (txPlan plan)
           then (addMessage SystemMessage (StepSentWaiting hash) s1)\<lparr>currentTxIndex := i + 1\<rparr>
           else addMessage SystemMessage (FinalStepSent hash) s1))"

definition handleTransactionReject :: "ChatState \<Rightarrow> ChatState" where
  "handleTransactionReject s =
     addMessage SystemMessage TransactionCancelled (s\<lparr>pendingTransaction := None, currentTxIndex := 0\<rparr>)"

text \<open>
  The confirmation watcher, the effect on \<open>[isTxConfirmed, txHash, pendingTransaction,
  currentTxIndex]\<close>.  It runs after a render in which one of the four changed.  If the
  summary raised, the effect would end there, before any state is set.
\<close>

definition confirmationEffect :: "ChatState \<Rightarrow> ChatState" where
  "confirmationEffect s =
     (case pendingTransaction s of
        None \<Rightarrow> s
      | Some plan \<Rightarrow>
          if isTxConfirmed s \<and> txHash s \<noteq> None then
            (case createTransactionSummary plan of
               Inl e \<Rightarrow> s
             | Inr summary \<Rightarrow>
                 (let s1 = addMessage SystemMessage (TransactionConfirmed summary) s in
                  if currentTxIndex s + 1 < length (txPlan plan) then s1
                  else s1\<lparr>pendingTransaction := None, currentTxIndex := 0, txHash := None\<rparr>))
          else s)"

definition watched ::
  "ChatState \<Rightarrow> bool \<times> string option \<times> (TransactionData \<times> nat) option \<times> nat" where
  "watched s =
     (isTxConfirmed s, txHash s,
      map_option (\<lambda>plan. (plan, planVersion s)) (pendingTransaction s), currentTxIndex s)"

definition afterRender :: "ChatState \<Rightarrow> ChatState \<Rightarrow> ChatState" where
  "afterRender before s = (if watched s = watched before then s else confirmationEffect s)"

text \<open>
  The events of a session.  The buttons of the preview are rendered while a plan is
  pending and disabled while a call is in flight; the send button is disabled on an
  empty input, while loading, without a wallet and off Arbitrum, where the banner
  offers a button that requests the switch.  The wallet hooks report a connection, a
  chain, a hash or a failure of the call in flight (for which the component registers
  no callback), and a receipt for the hash that is being watched.
\<close>

datatype event =
    Connect
  | Disconnect
  | ChainChanged nat
  | ClickSwitch
  | TypeInput string
  | Submit switch_outcome agent_reply
  | Approve call_outcome
  | Reject
  | WalletHash string
  | WalletError
  | Receipt string

definition dispatch :: "event \<Rightarrow> ChatState \<Rightarrow> ChatState" where
  "dispatch e s =
     (case e of
        Connect \<Rightarrow> s\<lparr>isConnected := True\<rparr>
      | Disconnect \<Rightarrow> s\<lparr>isConnected := False\<rparr>
      | ChainChanged n \<Rightarrow> s\<lparr>activeChain := n\<rparr>
      | ClickSwitch \<Rightarrow>
          if isConnected s \<and> activeChain s \<noteq> arbitrum_id
          then s\<lparr>effects := effects s @ [SwitchChain arbitrum_id]\<rparr>
          else s
      | TypeInput t \<Rightarrow>
          if isLoading s \<or> \<not> isConnected s \<or> activeChain s \<noteq> arbitrum_id then s
          else s\<lparr>inputValue := t\<rparr>
      | Submit sw reply \<Rightarrow>
          if \<not> isConnected s \<or> activeChain s \<noteq> arbitrum_id then s
          else handleSubmit sw reply s
      | Approve outcome \<Rightarrow>
          if pendingTransaction s = None \<or> isTxPending s then s
          else handleTransactionApprove outcome s
      | Reject \<Rightarrow>
          if pendingTransaction s = None \<or> isTxPending s then s
          else handleTransactionReject s
      | WalletHash h \<Rightarrow> onSuccess h s
      | WalletError \<Rightarrow> s\<lparr>sending := None\<rparr>
      | Receipt h \<Rightarrow>
          if txHash s = Some h then s\<lparr>confirmedHashes := h # confirmedHashes s\<rparr> else s)"

definition step :: "ChatState \<Rightarrow> event \<Rightarrow> ChatState" where
  "step s e = afterRender s (dispatch e s)"

definition run :: "event list \<Rightarrow> ChatState \<Rightarrow> ChatState" where
  "run es s = foldl step s es"

text \<open>What a session did: the indices of the steps submitted, the summaries of the
  confirmations observed, the chains a switch was requested to, the instructions sent.\<close>

definition submitCalls :: "effect list \<Rightarrow> nat list" where
  "submitCalls es = concat (map (\<lambda>e. case e of SendTransaction i t \<Rightarrow> [i] | _ \<Rightarrow> []) es)"

definition confirmationsObserved :: "effect list \<Rightarrow> string list" where
  "confirmationsObserved es =
     concat (map (\<lambda>e. case e of AddMessage w (TransactionConfirmed m) \<Rightarrow> [m] | _ \<Rightarrow> []) es)"

definition switchRequests :: "effect list \<Rightarrow> nat list" where
  "switchRequests es = concat (map (\<lambda>e. case e of SwitchChain n \<Rightarrow> [n] | _ \<Rightarrow> []) es)"

definition instructionsSent :: "effect list \<Rightarrow> string list" where
  "instructionsSent es = concat (map (\<lambda>e. case e of Fetch t \<Rightarrow> [t] | _ \<Rightarrow> []) es)"

text \<open>
  A session in which the agent answers an instruction with a two-step plan, an allowance
  step and the supply step that consumes it.
\<close>

definition approvalStep :: TransactionStep where
  "approvalStep =
     \<lparr>stepTo = ''0xaf88d065'', stepData = ''0x095ea7b3'', stepValue = ''0'', stepChainId = ''42161''\<rparr>"

definition supplyStep :: TransactionStep where
  "supplyStep =
     \<lparr>stepTo = ''0x794a6135'', stepData = ''0x617ba037'', stepValue = ''0'', stepChainId = ''42161''\<rparr>"

definition twoStepPlan :: TransactionData where
  "twoStepPlan =
     \<lparr>tokenName = ''USDC'', amount = ''0.1'', action = ''supply'', chainId = ''42161'',
      txPlan = [approvalStep, supplyStep]\<rparr>"

definition planReceived :: "event list" where
  "planReceived =
     [Connect, ChainChanged 42161, TypeInput ''supply 0.1 usdc'',
      Submit SwitchResolved (CompletedArtifact ''ready'' (PlanArtifact twoStepPlan))]"

text \<open>
  A session in which the user types an instruction on Arbitrum and the wallet then moves
  to another chain.
\<close>

definition leftArbitrum :: "event list" where
  "leftArbitrum =
     [Connect, ChainChanged 42161, TypeInput ''supply 0.1 usdc'', ChainChanged 1]"

section \<open>Notions of the specification\<close>

text \<open>
  An input passes the digit pattern when its integer part, and its fractional part if
  there is one, match \<^verbatim>\<open>/^\d+$/\<close>.
  A display string is a run of digits, optionally followed by a point and a run of
  digits.  Its fractional part carries no superfluous trailing zero when it does not end
  in \<open>0\<close>; its integer part carries no superfluous leading zero when it is \<open>0\<close> or does
  not start with \<open>0\<close>.  The round trip is \<open>toDisplayUnits(toBaseUnits(x, d), d)\<close>.
\<close>

definition passesDigitPattern :: "string \<Rightarrow> bool" where
  "passesDigitPattern x =
     (case js_split (CHR ''.'') x of
        [] \<Rightarrow> False
      | [w] \<Rightarrow> matchesDigits w
      | w # f # _ \<Rightarrow> matchesDigits w \<and> matchesDigits f)"

definition displayString :: "string \<Rightarrow> bool" where
  "displayString x =
     (case js_split (CHR ''.'') x of
        [w] \<Rightarrow> matchesDigits w
      | [w, f] \<Rightarrow> matchesDigits w \<and> matchesDigits f
      | _ \<Rightarrow> False)"

definition noTrailingZeros :: "string \<Rightarrow> bool" where
  "noTrailingZeros x = (take 1 (rev (fractionalPartOf x)) \<noteq> ''0'')"

definition noLeadingZeros :: "string \<Rightarrow> bool" where
  "noLeadingZeros x = (wholePartOf x = ''0'' \<or> take 1 (wholePartOf x) \<noteq> ''0'')"

definition roundTrip :: "string \<Rightarrow> nat \<Rightarrow> js_error + string" where
  "roundTrip x d =
     (case parseTokenAmount x d of
        Inl e \<Rightarrow> Inl e
      | Inr b \<Rightarrow> formatTokenAmount (AmountBigInt b) d)"

text \<open>
  The numeric value of a display string, as a rational; the rendering the specification
  gives for \<open>toDisplayUnits\<close> (quotient and remainder by \<open>10^d\<close>, the remainder padded to
  \<open>d\<close> digits and stripped of trailing zeros, left out with the point when it is zero);
  and \<open>Capitalize\<close>.
\<close>

definition numericValue :: "string \<Rightarrow> rat" where
  "numericValue x =
     of_nat (digitsValue (wholePartOf x))
     + of_nat (digitsValue (fractionalPartOf x)) / 10 ^ length (fractionalPartOf x)"

definition toDisplayUnits_spec :: "nat \<Rightarrow> nat \<Rightarrow> string" where
  "toDisplayUnits_spec n d =
     (if n mod 10 ^ d = 0 then natToString (n div 10 ^ d)
      else natToString (n div 10 ^ d) @ ''.''
           @ stripTrailingZeros (padStart d (CHR ''0'') (natToString (n mod 10 ^ d))))"

definition capitalize :: "string \<Rightarrow> string" where
  "capitalize s = (case s of [] \<Rightarrow> [] | c # cs \<Rightarrow> upperChar c # cs)"

section \<open>Digits, decimal rendering and parsing\<close>

declare natToString.simps [simp del]
declare excessBits.simps [simp del]

lemma js_split_not_Nil: "js_split sep s \<noteq> []"
  by (induction s) (auto split: list.splits)

lemma digitChar_table: "list_all (\<lambda>n. (of_char (digitChar n) :: nat) = 48 + n) [0..<10]"
  by (simp add: digitChar_def upt_rec)

lemma of_char_digitChar:
  assumes "n < 10"
  shows "(of_char (digitChar n) :: nat) = 48 + n"
proof -
  from assms have "n \<in> set [0..<10]" by simp
  with digitChar_table show ?thesis
    unfolding list_all_iff by blast
qed

lemma isDigit_digitChar: "n < 10 \<Longrightarrow> isDigit (digitChar n)"
  by (simp add: isDigit_def of_char_digitChar)

lemma digitValue_digitChar: "n < 10 \<Longrightarrow> digitValue (digitChar n) = n"
  by (simp add: digitValue_def of_char_digitChar)

lemma digitValue_less: "isDigit c \<Longrightarrow> digitValue c < 10"
  by (auto simp: isDigit_def digitValue_def)

lemma digitChar_digitValue: "isDigit c \<Longrightarrow> digitChar (digitValue c) = c"
proof -
  assume d: "isDigit c"
  have "(of_char (digitChar (digitValue c)) :: nat) = of_char c"
    using d by (simp add: of_char_digitChar digitValue_less) (simp add: isDigit_def digitValue_def)
  then show ?thesis
    by (rule of_char_eqI)
qed

lemma digitsValue_Nil: "digitsValue [] = 0"
  by (simp add: digitsValue_def)

lemma digitsValue_snoc: "digitsValue (s @ [c]) = digitsValue s * 10 + digitValue c"
  by (simp add: digitsValue_def)

lemma digitsValue_append: "digitsValue (s @ t) = digitsValue s * 10 ^ length t + digitsValue t"
  by (induction t rule: rev_induct) (simp_all add: digitsValue_Nil digitsValue_snoc flip: append_assoc add: algebra_simps)

lemma natToString_digit: "n < 10 \<Longrightarrow> natToString n = [digitChar n]"
  by (simp add: natToString.simps)

lemma natToString_step: "0 < a \<Longrightarrow> b < 10 \<Longrightarrow> natToString (a * 10 + b) = natToString a @ [digitChar b]"
  by (subst natToString.simps) simp

lemma natToString_not_Nil: "natToString n \<noteq> []"
  by (subst natToString.simps) simp

lemma natToString_digits: "list_all isDigit (natToString n)"
proof (induction n rule: natToString.induct)
  case (1 n)
  show ?case
  proof (cases "n < 10")
    case True
    then show ?thesis by (simp add: natToString_digit isDigit_digitChar)
  next
    case False
    with 1 show ?thesis
      by (subst natToString.simps) (simp add: isDigit_digitChar)
  qed
qed

lemma digitsValue_natToString: "digitsValue (natToString n) = n"
proof (induction n rule: natToString.induct)
  case (1 n)
  show ?case
  proof (cases "n < 10")
    case True
    then show ?thesis by (simp add: natToString_digit digitsValue_def digitValue_digitChar)
  next
    case False
    with 1 show ?thesis
      by (subst natToString.simps) (simp add: digitsValue_snoc digitValue_digitChar)
  qed
qed

lemma natToString_digitsValue:
  "s \<noteq> [] \<Longrightarrow> list_all isDigit s \<Longrightarrow>
   \<exists>k. s = replicate k (CHR ''0'') @ natToString (digitsValue s)"
proof (induction s rule: rev_induct)
  case Nil
  then show ?case by simp
next
  case (snoc c t)
  then have dc: "isDigit c" and dt: "list_all isDigit t" by simp_all
  show ?case
  proof (cases "t = []")
    case True
    then show ?thesis
      using dc by (auto simp: digitsValue_def natToString_digit digitValue_less digitChar_digitValue intro: exI[of _ 0])
  next
    case False
    with snoc dt obtain k where k: "t = replicate k (CHR ''0'') @ natToString (digitsValue t)"
      by blast
    show ?thesis
    proof (cases "digitsValue t = 0")
      case True
      have z: "natToString (0::nat) = [CHR ''0'']"
        by (simp add: natToString.simps digitChar_def)
      have "natToString (digitsValue (t @ [c])) = [c]"
        using True dc
        by (simp add: digitsValue_snoc natToString_digit digitValue_less digitChar_digitValue)
      moreover have "t = replicate (Suc k) (CHR ''0'')"
        using k True z by (simp add: replicate_append_same)
      ultimately have "t @ [c] = replicate (Suc k) (CHR ''0'') @ natToString (digitsValue (t @ [c]))"
        by simp
      then show ?thesis by blast
    next
      case False
      then have "natToString (digitsValue (t @ [c])) = natToString (digitsValue t) @ [c]"
        using dc by (simp add: digitsValue_snoc natToString_step digitValue_less digitChar_digitValue)
      with k have "t @ [c] = replicate k (CHR ''0'') @ natToString (digitsValue (t @ [c]))"
        by simp
      then show ?thesis by blast
    qed
  qed
qed

lemma isDigit_not_ws: "isDigit c \<Longrightarrow> \<not> isWhiteSpace c"
  by (auto simp: isDigit_def isWhiteSpace_def)

lemma trimString_digits: "list_all isDigit s \<Longrightarrow> trimString s = s"
proof (cases s rule: rev_cases)
  case Nil
  then show ?thesis by (simp add: trimString_def)
next
  case (snoc t c)
  assume a: "list_all isDigit s"
  with snoc have c: "\<not> isWhiteSpace c" by (simp add: isDigit_not_ws)
  have h: "dropWhile isWhiteSpace s = s"
    using a by (cases s) (simp_all add: isDigit_not_ws)
  have "trimString s = rev (dropWhile isWhiteSpace (rev s))"
    by (simp add: trimString_def h)
  then show ?thesis
    using c snoc by simp
qed

lemma isDigit_chars:
  assumes "isDigit c"
  shows "c \<noteq> CHR ''+''" "c \<noteq> CHR ''-''" "c \<noteq> CHR ''x''" "c \<noteq> CHR ''X''"
    "c \<noteq> CHR ''o''" "c \<noteq> CHR ''O''" "c \<noteq> CHR ''b''" "c \<noteq> CHR ''B''" "c \<noteq> CHR ''.''"
  using assms by (auto simp: isDigit_def)

lemma BigInt_string_digits:
  assumes "list_all isDigit s"
  shows "BigInt_string s = Inr (int (digitsValue s))"
proof (cases s)
  case Nil
  then show ?thesis by (simp add: BigInt_string_def trimString_def digitsValue_def)
next
  case (Cons c r)
  with assms have c: "isDigit c" and r: "list_all isDigit r" by simp_all
  have m: "matchesDigits (c # r)" using c r by (simp add: matchesDigits_def)
  show ?thesis
  proof (cases r)
    case Nil
    then show ?thesis
      using Cons m isDigit_chars[OF c] trimString_digits[OF assms]
      by (simp add: BigInt_string_def decimalBigInt_def)
  next
    case (Cons p ds)
    with r have p: "isDigit p" by simp
    show ?thesis
      using Cons \<open>s = c # r\<close> m isDigit_chars[OF c] isDigit_chars[OF p] trimString_digits[OF assms]
      by (simp add: BigInt_string_def decimalBigInt_def)
  qed
qed

lemma stripTrailingZeros_keep:
  "f \<noteq> [] \<Longrightarrow> last f \<noteq> CHR ''0'' \<Longrightarrow> stripTrailingZeros (f @ replicate k (CHR ''0'')) = f"
  by (cases f rule: rev_cases) (simp_all add: stripTrailingZeros_def dropWhile_append3)

lemma bigintDiv_nonneg: "0 \<le> a \<Longrightarrow> 0 < b \<Longrightarrow> bigintDiv a b = a div b"
  by (cases "a = 0") (simp_all add: bigintDiv_def)

lemma bigintRem_nonneg: "0 \<le> a \<Longrightarrow> 0 < b \<Longrightarrow> bigintRem a b = a mod b"
  by (cases "a = 0") (simp_all add: bigintRem_def)

lemma numberPow10_low:
  "numberPow10 0 = Some 1" "numberPow10 (Suc 0) = Some (10 ^ Suc 0)"
  "numberPow10 2 = Some (10 ^ 2)" "numberPow10 3 = Some (10 ^ 3)" "numberPow10 4 = Some (10 ^ 4)"
  "numberPow10 5 = Some (10 ^ 5)" "numberPow10 6 = Some (10 ^ 6)" "numberPow10 7 = Some (10 ^ 7)"
  "numberPow10 8 = Some (10 ^ 8)" "numberPow10 9 = Some (10 ^ 9)" "numberPow10 10 = Some (10 ^ 10)"
  "numberPow10 11 = Some (10 ^ 11)"
  by (simp_all add: numberPow10_def roundBinary64_def excessBits.simps Let_def)

lemma numberPow10_high:
  "numberPow10 12 = Some (10 ^ 12)" "numberPow10 13 = Some (10 ^ 13)"
  "numberPow10 14 = Some (10 ^ 14)" "numberPow10 15 = Some (10 ^ 15)"
  "numberPow10 16 = Some (10 ^ 16)" "numberPow10 17 = Some (10 ^ 17)"
  "numberPow10 18 = Some (10 ^ 18)" "numberPow10 19 = Some (10 ^ 19)"
  "numberPow10 20 = Some (10 ^ 20)" "numberPow10 21 = Some (10 ^ 21)"
  "numberPow10 22 = Some (10 ^ 22)"
  by (simp_all add: numberPow10_def roundBinary64_def excessBits.simps Let_def)

lemma below_12: "d < 12 \<Longrightarrow> d \<in> {0, 1, 2, 3, 4, 5, 6, 7, 8, 9, 10, 11::nat}"
  by (simp only: insert_iff empty_iff) arith

lemma from_12_to_22: "12 \<le> d \<Longrightarrow> d \<le> 22 \<Longrightarrow> d \<in> {12, 13, 14, 15, 16, 17, 18, 19, 20, 21, 22::nat}"
  by (simp only: insert_iff empty_iff) arith

lemma numberPow10_exact:
  assumes "d \<le> 22"
  shows "numberPow10 d = Some (10 ^ d)"
proof (cases "d < 12")
  case True
  from below_12[OF this] show ?thesis
    by (elim insertE emptyE) (simp_all only: numberPow10_low power_0 One_nat_def)
next
  case False
  then have "12 \<le> d" by simp
  from from_12_to_22[OF this assms] show ?thesis
    by (elim insertE emptyE) (simp_all only: numberPow10_high)
qed

lemma numberPow10_23: "numberPow10 23 = Some 99999999999999991611392"
  by (simp add: numberPow10_def roundBinary64_def excessBits.simps Let_def)

lemma digitsValue_bound: "list_all isDigit s \<Longrightarrow> digitsValue s < 10 ^ length s"
proof (induction s rule: rev_induct)
  case Nil
  then show ?case by (simp add: digitsValue_def)
next
  case (snoc c t)
  then have "digitsValue t < 10 ^ length t" and "digitValue c < 10"
    by (simp_all add: digitValue_less)
  then have "digitsValue t * 10 + digitValue c < 10 ^ length t * 10"
    by arith
  then show ?case by (simp add: digitsValue_snoc)
qed

lemma digitsValue_zeros: "digitsValue (replicate k (CHR ''0'')) = 0"
proof (induction k)
  case 0
  then show ?case by (simp add: digitsValue_Nil)
next
  case (Suc k)
  have "replicate (Suc k) (CHR ''0'') = replicate k (CHR ''0'') @ [CHR ''0'']"
    by (simp add: replicate_append_same)
  then show ?case
    using Suc by (simp only: digitsValue_snoc) (simp add: digitValue_def)
qed

lemma isDigit_zero: "isDigit (CHR ''0'')"
  by (simp add: isDigit_def)

lemma padStart_natToString:
  assumes "s \<noteq> []" "list_all isDigit s"
  shows "padStart (length s) (CHR ''0'') (natToString (digitsValue s)) = s"
proof -
  obtain k where k: "s = replicate k (CHR ''0'') @ natToString (digitsValue s)"
    using natToString_digitsValue[OF assms] by blast
  then have "length s = k + length (natToString (digitsValue s))"
    by (metis length_append length_replicate)
  then have "padStart (length s) (CHR ''0'') (natToString (digitsValue s)) =
      replicate k (CHR ''0'') @ natToString (digitsValue s)"
    by (simp add: padStart_def)
  with k show ?thesis by simp
qed

lemma natToString_canonical:
  assumes "matchesDigits w" "w = ''0'' \<or> take 1 w \<noteq> ''0''"
  shows "natToString (digitsValue w) = w"
proof -
  from assms(1) have ne: "w \<noteq> []" and dg: "list_all isDigit w"
    by (simp_all add: matchesDigits_def)
  obtain k where k: "w = replicate k (CHR ''0'') @ natToString (digitsValue w)"
    using natToString_digitsValue[OF ne dg] by blast
  show ?thesis
  proof (cases k)
    case 0
    with k show ?thesis by simp
  next
    case (Suc j)
    with k have t: "take 1 w = ''0''"
      by (metis One_nat_def append_Cons replicate_Suc take0 take_Suc_Cons)
    with assms(2) have "w = ''0''" by blast
    then show ?thesis
      by (simp add: digitsValue_def digitValue_def natToString.simps digitChar_def)
  qed
qed

lemma padded_digits:
  "list_all isDigit f \<Longrightarrow> list_all isDigit (take d (padEnd d (CHR ''0'') f))"
  by (auto simp: padEnd_def isDigit_zero list_all_iff dest: in_set_takeD)

lemma digitsValue_padded:
  assumes "list_all isDigit f"
  shows "digitsValue (take d (padEnd d (CHR ''0'') f)) = digitsValue f * 10 ^ d div 10 ^ length f"
proof (cases "length f \<le> d")
  case True
  then have "take d (padEnd d (CHR ''0'') f) = f @ replicate (d - length f) (CHR ''0'')"
    by (simp add: padEnd_def)
  moreover have "(10::nat) ^ d = 10 ^ (d - length f) * 10 ^ length f"
    using True by (simp flip: power_add)
  ultimately show ?thesis
    by (simp add: digitsValue_append digitsValue_zeros)
next
  case False
  then have l: "d < length f" by simp
  then have t: "take d (padEnd d (CHR ''0'') f) = take d f"
    by (simp add: padEnd_def)
  have "digitsValue f = digitsValue (take d f @ drop d f)" by simp
  also have "\<dots> = digitsValue (take d f) * 10 ^ (length f - d) + digitsValue (drop d f)"
    using l by (simp only: digitsValue_append length_drop)
  finally have e: "digitsValue f = digitsValue (take d f) * 10 ^ (length f - d) + digitsValue (drop d f)" .
  have b: "digitsValue (drop d f) < 10 ^ (length f - d)"
    using digitsValue_bound[of "drop d f"] assms by (simp add: list_all_iff) (meson in_set_dropD)
  have p: "(10::nat) ^ length f = 10 ^ (length f - d) * 10 ^ d"
    using l by (simp flip: power_add)
  have "digitsValue f * 10 ^ d div 10 ^ length f = digitsValue f div 10 ^ (length f - d)"
    by (simp add: p)
  also have "\<dots> = digitsValue (take d f)"
    using e b by simp
  finally show ?thesis using t by simp
qed

lemma parseTokenAmount_digits:
  assumes "matchesDigits (wholePartOf x)" "list_all isDigit (fractionalPartOf x)"
  shows "parseTokenAmount x d =
    Inr (int (digitsValue (wholePartOf x) * 10 ^ d + digitsValue (paddedFractionalOf x d)))"
proof -
  have w: "BigInt_string (wholePartOf x) = Inr (int (digitsValue (wholePartOf x)))"
    using assms(1) by (simp add: BigInt_string_digits matchesDigits_def)
  have f: "BigInt_string (paddedFractionalOf x d) = Inr (int (digitsValue (paddedFractionalOf x d)))"
    unfolding paddedFractionalOf_def
    by (rule BigInt_string_digits) (rule padded_digits[OF assms(2)])
  show ?thesis
    by (simp add: parseTokenAmount_def w f)
qed

lemma formatTokenAmount_nonneg:
  assumes "0 \<le> n" "d \<le> 22"
  shows "formatTokenAmount (AmountBigInt n) d =
    Inr (if n mod 10 ^ d = 0 then natToString (nat (n div 10 ^ d))
         else natToString (nat (n div 10 ^ d)) @ ''.'' @
              stripTrailingZeros (padStart d (CHR ''0'') (natToString (nat (n mod 10 ^ d)))))"
proof -
  have q: "0 \<le> n div 10 ^ d" using assms(1) by (simp add: pos_imp_zdiv_nonneg_iff)
  have r: "0 \<le> n mod 10 ^ d" by simp
  have r': "(n mod 10 ^ d < 0) = False" by (simp add: not_less)
  have q': "(n div 10 ^ d < 0) = False" using q by (simp add: not_less)
  show ?thesis
    by (simp add: formatTokenAmount_def numberPow10_exact[OF assms(2)] BigInt_number_def
        bigintDiv_nonneg[OF assms(1)] bigintRem_nonneg[OF assms(1)] bigintToString_def Let_def r' q')
qed

lemma formatTokenAmount_spec:
  "d \<le> 22 \<Longrightarrow> formatTokenAmount (AmountBigInt (int n)) d = Inr (toDisplayUnits_spec n d)"
proof -
  assume d: "d \<le> 22"
  have q: "int n div 10 ^ d = int (n div 10 ^ d)" by (simp add: zdiv_int)
  have r: "int n mod 10 ^ d = int (n mod 10 ^ d)" by (simp add: zmod_int)
  have z: "(int n mod 10 ^ d = 0) = (n mod 10 ^ d = 0)"
    unfolding r by simp
  show ?thesis
    using formatTokenAmount_nonneg[of "int n" d] d
    by (simp add: toDisplayUnits_spec_def z) (simp add: q r)
qed

lemma js_split_one: "js_split sep s = [w] \<Longrightarrow> s = w"
  by (induction s arbitrary: w) (auto split: if_splits list.splits simp: js_split_not_Nil)

lemma js_split_two: "js_split sep s = [w, f] \<Longrightarrow> s = w @ sep # f"
proof (induction s arbitrary: w)
  case Nil
  then show ?case by simp
next
  case (Cons c cs)
  show ?case
  proof (cases "c = sep")
    case True
    with Cons.prems have "w = []" and "js_split sep cs = [f]" by simp_all
    then show ?thesis using True js_split_one by fastforce
  next
    case False
    with Cons.prems obtain p where "w = c # p" and "js_split sep cs = [p, f]"
      by (auto split: list.splits)
    then show ?thesis using Cons.IH by simp
  qed
qed

lemma digitsValue_last:
  assumes "f \<noteq> []" "list_all isDigit f" "last f \<noteq> CHR ''0''"
  shows "digitsValue f \<noteq> 0"
proof -
  obtain t c where f: "f = t @ [c]" using assms(1) by (cases f rule: rev_cases) auto
  then have c: "isDigit c" "c \<noteq> CHR ''0''" using assms by simp_all
  have "digitValue c \<noteq> 0"
  proof
    assume "digitValue c = 0"
    then have "(of_char c :: nat) = of_char (CHR ''0'')"
      using c(1) by (simp add: digitValue_def isDigit_def)
    then have "c = CHR ''0''" by (rule of_char_eqI)
    with c(2) show False by simp
  qed
  then show ?thesis by (simp add: f digitsValue_snoc)
qed

lemma replicate_numeral: "replicate (numeral k) x = x # replicate (pred_numeral k) x"
  by (simp add: numeral_eq_Suc)

lemmas js_eval =
  matchesDigits_def isDigit_def digitValue_def digitsValue_def isWhiteSpace_def trimString_def
  decimalBigInt_def BigInt_string_def digitChar_def natToString.simps bigintToString_def
  bigintDiv_def bigintRem_def BigInt_number_def numberPow10_exact padEnd_def padStart_def
  stripTrailingZeros_def replicate_numeral wholePartOf_def fractionalPartOf_def
  paddedFractionalOf_def parseTokenAmount_def formatTokenAmount_def isValidTokenAmount_def
  passesDigitPattern_def displayString_def noTrailingZeros_def noLeadingZeros_def roundTrip_def

lemma BigInt_string_error: "BigInt_string s = Inl e \<Longrightarrow> e = SyntaxError"
  by (auto simp: BigInt_string_def decimalBigInt_def nonDecimalBigInt_def map_sum_def
      split: list.splits if_splits sum.splits)

lemma passesDigitPattern_parts:
  "passesDigitPattern x \<Longrightarrow> matchesDigits (wholePartOf x) \<and> list_all isDigit (fractionalPartOf x)"
  by (auto simp: passesDigitPattern_def wholePartOf_def fractionalPartOf_def matchesDigits_def
      split: list.splits)

lemma isValidTokenAmount_pattern:
  "isValidTokenAmount x d = (passesDigitPattern x \<and> length (fractionalPartOf x) \<le> d)"
  by (auto simp: isValidTokenAmount_def passesDigitPattern_def fractionalPartOf_def split: list.splits)

section \<open>The token-amount codec\<close>

text \<open>
  C2, as stated: the round trip is the identity on every display string whose fractional
  part has at most \<open>d\<close> digits and no superfluous trailing zero.  It is not: \<open>007\<close> is
  such a string and comes back as \<open>7\<close>.
\<close>

theorem roundTrip_leading_zeros:
  "displayString ''007'' \<and> length (fractionalPartOf ''007'') \<le> 6 \<and> noTrailingZeros ''007''
   \<and> roundTrip ''007'' 6 = Inr ''7'' \<and> ''7'' \<noteq> ''007''"
  by (simp add: js_eval)

text \<open>
  C2, amended: for every display string \<open>x\<close> whose fractional part has at most \<open>d\<close>
  digits and no superfluous trailing zero, and whose integer part has no superfluous
  leading zero, and for \<open>d \<le> 22\<close> (the decimals at which \<open>10 ** d\<close> is exact),
  \<open>toDisplayUnits(toBaseUnits(x, d), d) = x\<close>.
\<close>

theorem roundTrip_canonical:
  assumes ds: "displayString x" and len: "length (fractionalPartOf x) \<le> d"
    and tz: "noTrailingZeros x" and lz: "noLeadingZeros x" and d: "d \<le> 22"
  shows "roundTrip x d = Inr x"
proof -
  define w where "w = wholePartOf x"
  define f where "f = fractionalPartOf x"
  have split: "(js_split (CHR ''.'') x = [w] \<and> f = [] \<and> x = w) \<or>
               (js_split (CHR ''.'') x = [w, f] \<and> matchesDigits f \<and> x = w @ CHR ''.'' # f)"
    using ds js_split_one[of "CHR ''.''" x] js_split_two[of "CHR ''.''" x]
    by (auto simp: displayString_def w_def f_def wholePartOf_def fractionalPartOf_def split: list.splits)
  have mw: "matchesDigits w"
    using ds by (auto simp: displayString_def w_def wholePartOf_def split: list.splits)
  have df: "list_all isDigit f"
    using split by (auto simp: matchesDigits_def)
  have canon: "natToString (digitsValue w) = w"
    using mw lz by (simp add: natToString_canonical noLeadingZeros_def w_def)
  define p where "p = f @ replicate (d - length f) (CHR ''0'')"
  have pf: "paddedFractionalOf x d = p"
    using len by (simp add: paddedFractionalOf_def padEnd_def p_def f_def)
  have dp: "list_all isDigit p" using df by (auto simp: p_def isDigit_zero list_all_iff)
  have lp: "length p = d" using len by (simp add: p_def f_def)
  have bp: "digitsValue p < 10 ^ d" using digitsValue_bound[OF dp] lp by simp
  define n where "n = int (digitsValue w * 10 ^ d + digitsValue p)"
  have parse: "parseTokenAmount x d = Inr n"
    using parseTokenAmount_digits[of x d] mw df pf by (simp add: n_def w_def f_def)
  have n0: "0 \<le> n" by (simp add: n_def)
  have qd: "n div 10 ^ d = int (digitsValue w)"
  proof -
    have "(digitsValue w * 10 ^ d + digitsValue p) div 10 ^ d = digitsValue w"
      using bp by simp
    then show ?thesis unfolding n_def by (metis of_nat_numeral of_nat_power zdiv_int)
  qed
  have rm: "n mod 10 ^ d = int (digitsValue p)"
  proof -
    have "(digitsValue w * 10 ^ d + digitsValue p) mod 10 ^ d = digitsValue p"
      using bp by simp
    then show ?thesis unfolding n_def by (metis of_nat_numeral of_nat_power zmod_int)
  qed
  have fmt: "formatTokenAmount (AmountBigInt n) d =
      Inr (if digitsValue p = 0 then w
           else w @ ''.'' @ stripTrailingZeros (padStart d (CHR ''0'') (natToString (digitsValue p))))"
    by (simp add: formatTokenAmount_nonneg[OF n0 d] qd rm canon)
  from split show ?thesis
  proof
    assume a: "js_split (CHR ''.'') x = [w] \<and> f = [] \<and> x = w"
    then have "digitsValue p = 0" by (simp add: p_def digitsValue_zeros)
    with a fmt parse show ?thesis by (simp add: roundTrip_def)
  next
    assume a: "js_split (CHR ''.'') x = [w, f] \<and> matchesDigits f \<and> x = w @ CHR ''.'' # f"
    then have fne: "f \<noteq> []" by (simp add: matchesDigits_def)
    have lf: "last f \<noteq> CHR ''0''"
      using tz fne by (cases f rule: rev_cases) (simp_all add: noTrailingZeros_def f_def)
    have "digitsValue f \<noteq> 0" by (rule digitsValue_last[OF fne df lf])
    then have nz: "digitsValue p \<noteq> 0" by (simp add: p_def digitsValue_append)
    have pne: "p \<noteq> []" using fne by (simp add: p_def)
    have "padStart d (CHR ''0'') (natToString (digitsValue p)) = p"
      using padStart_natToString[OF pne dp] lp by simp
    moreover have "stripTrailingZeros p = f"
      unfolding p_def by (rule stripTrailingZeros_keep[OF fne lf])
    ultimately show ?thesis
      using a fmt parse nz by (simp add: roundTrip_def)
  qed
qed

theorem roundTrip_canonical_witness:
  "displayString ''12.5'' \<and> length (fractionalPartOf ''12.5'') \<le> 6 \<and> noTrailingZeros ''12.5''
   \<and> noLeadingZeros ''12.5'' \<and> (6::nat) \<le> 22 \<and> roundTrip ''12.5'' 6 = Inr ''12.5''"
proof -
  have h: "displayString ''12.5''" "length (fractionalPartOf ''12.5'') \<le> 6"
    "noTrailingZeros ''12.5''" "noLeadingZeros ''12.5''" "(6::nat) \<le> 22"
    by (simp_all add: js_eval)
  from roundTrip_canonical[OF h] h show ?thesis by simp
qed

text \<open>
  C5: on every input that passes the digit pattern, \<open>toBaseUnits\<close> does not raise and
  returns integer part times \<open>10^d\<close> plus the fractional part right-padded with zeros and
  cut to \<open>d\<close> digits; the cut truncates: the padded fraction is the fraction scaled by
  \<open>10^d\<close> and divided, rounding down, by ten to its length.  \<open>toBaseUnits("123", 18)\<close> is
  \<open>123 * 10^18\<close>, and \<open>toBaseUnits("12.3456789", 6)\<close> is \<open>12345678\<close>.
\<close>

theorem toBaseUnits_valid:
  "(passesDigitPattern x \<longrightarrow>
      parseTokenAmount x d =
        Inr (int (digitsValue (wholePartOf x) * 10 ^ d
                  + digitsValue (take d (padEnd d (CHR ''0'') (fractionalPartOf x)))))
      \<and> digitsValue (take d (padEnd d (CHR ''0'') (fractionalPartOf x)))
          = digitsValue (fractionalPartOf x) * 10 ^ d div 10 ^ length (fractionalPartOf x))
   \<and> parseTokenAmount ''123'' 18 = Inr (123 * 10 ^ 18)
   \<and> parseTokenAmount ''12.3456789'' 6 = Inr 12345678"
proof (intro conjI impI)
  assume p: "passesDigitPattern x"
  from passesDigitPattern_parts[OF p]
  have w: "matchesDigits (wholePartOf x)" and f: "list_all isDigit (fractionalPartOf x)"
    by simp_all
  show "parseTokenAmount x d =
        Inr (int (digitsValue (wholePartOf x) * 10 ^ d
                  + digitsValue (take d (padEnd d (CHR ''0'') (fractionalPartOf x)))))"
    using parseTokenAmount_digits[OF w f, of d] by (simp add: paddedFractionalOf_def)
  show "digitsValue (take d (padEnd d (CHR ''0'') (fractionalPartOf x)))
          = digitsValue (fractionalPartOf x) * 10 ^ d div 10 ^ length (fractionalPartOf x)"
    by (rule digitsValue_padded[OF f])
next
  show "parseTokenAmount ''123'' 18 = Inr (123 * 10 ^ 18)"
    by (simp add: js_eval)
  show "parseTokenAmount ''12.3456789'' 6 = Inr 12345678"
    by (simp add: js_eval)
qed

theorem toBaseUnits_valid_witness:
  "passesDigitPattern ''12.3456789''
   \<and> parseTokenAmount ''12.3456789'' 6 =
       Inr (int (digitsValue ''12'' * 10 ^ 6 + digitsValue ''345678''))
   \<and> digitsValue ''345678'' = digitsValue ''3456789'' * 10 ^ 6 div 10 ^ 7"
proof -
  have h: "passesDigitPattern ''12.3456789''"
    by (simp add: js_eval)
  have w: "wholePartOf ''12.3456789'' = ''12''" "fractionalPartOf ''12.3456789'' = ''3456789''"
    by (simp_all add: js_eval)
  from toBaseUnits_valid[of "''12.3456789''" 6] h w show ?thesis
    by (simp add: padEnd_def)
qed

text \<open>
  C4, as stated: \<open>toBaseUnits\<close> fails whenever the integer part does not match the digit
  pattern.  It does not: the integer part of \<open>.5\<close> is empty, and \<open>toBaseUnits(".5", 6)\<close>
  is \<open>500000\<close>.
\<close>

theorem toBaseUnits_accepts_empty_integer_part:
  "\<not> matchesDigits (wholePartOf ''.5'') \<and> parseTokenAmount ''.5'' 6 = Inr 500000"
  by (simp add: js_eval)

text \<open>
  C4, amended: \<open>toBaseUnits\<close> checks no pattern itself.  It fails exactly when \<open>BigInt\<close>
  rejects the integer part or the fractional part as padded and cut to \<open>d\<close> characters
  (a SyntaxError, the InvalidAmount case); it fails only on inputs that do not pass the
  digit pattern; those inputs are what \<open>isValidTokenAmount\<close> rejects; and
  \<open>toBaseUnits("1a.2", 6)\<close> fails.
\<close>

theorem toBaseUnits_failure:
  "((\<exists>e. parseTokenAmount x d = Inl e) =
      (BigInt_string (wholePartOf x) = Inl SyntaxError
       \<or> BigInt_string (paddedFractionalOf x d) = Inl SyntaxError))
   \<and> ((\<exists>e. parseTokenAmount x d = Inl e) \<longrightarrow>
         parseTokenAmount x d = Inl SyntaxError \<and> \<not> passesDigitPattern x)
   \<and> (\<not> passesDigitPattern x \<longrightarrow> \<not> isValidTokenAmount x d)
   \<and> parseTokenAmount ''1a.2'' 6 = Inl SyntaxError"
proof (intro conjI impI)
  show "(\<exists>e. parseTokenAmount x d = Inl e) =
      (BigInt_string (wholePartOf x) = Inl SyntaxError
       \<or> BigInt_string (paddedFractionalOf x d) = Inl SyntaxError)"
    by (auto simp: parseTokenAmount_def split: sum.splits dest: BigInt_string_error)
next
  assume "\<exists>e. parseTokenAmount x d = Inl e"
  then obtain e where e: "parseTokenAmount x d = Inl e" by blast
  then show "parseTokenAmount x d = Inl SyntaxError"
    by (auto simp: parseTokenAmount_def split: sum.splits dest: BigInt_string_error)
  show "\<not> passesDigitPattern x"
  proof
    assume "passesDigitPattern x"
    from passesDigitPattern_parts[OF this] have "\<exists>n. parseTokenAmount x d = Inr n"
      using parseTokenAmount_digits[of x d] by blast
    with e show False by simp
  qed
next
  assume "\<not> passesDigitPattern x"
  then show "\<not> isValidTokenAmount x d"
    by (simp add: isValidTokenAmount_pattern)
next
  show "parseTokenAmount ''1a.2'' 6 = Inl SyntaxError"
    by (simp add: js_eval)
qed

theorem toBaseUnits_failure_witness:
  "(\<exists>e. parseTokenAmount ''1a.2'' 6 = Inl e) \<and> \<not> passesDigitPattern ''1a.2''
   \<and> \<not> isValidTokenAmount ''1a.2'' 6
   \<and> BigInt_string (wholePartOf ''1a.2'') = Inl SyntaxError"
proof -
  have h: "parseTokenAmount ''1a.2'' 6 = Inl SyntaxError"
    using toBaseUnits_failure[of "''1a.2''" 6] by blast
  then have e: "\<exists>e. parseTokenAmount ''1a.2'' 6 = Inl e" by blast
  have b: "BigInt_string (wholePartOf ''1a.2'') = Inl SyntaxError"
    by (simp add: js_eval)
  from toBaseUnits_failure[of "''1a.2''" 6] e b show ?thesis by blast
qed

text \<open>
  C6 at 23 decimals: \<open>10^23\<close> base units are one display unit, and quotient and
  remainder by \<open>10^23\<close> render it as \<open>1\<close>; but the divisor \<open>BigInt(10 ** 23)\<close> is
  \<open>99999999999999991611392\<close>, and the result has a fractional part.  At 6 decimals
  \<open>toDisplayUnits(100000, 6)\<close> is \<open>0.1\<close>; up to 22 decimals the result is the
  specification's (lemma \<open>formatTokenAmount_spec\<close>).
\<close>

theorem toDisplayUnits_23_decimals:
  "formatTokenAmount (AmountBigInt (10 ^ 23)) 23 = Inr ''1.00000000000000008388608''
   \<and> toDisplayUnits_spec (10 ^ 23) 23 = ''1''
   \<and> formatTokenAmount (AmountBigInt 100000) 6 = Inr ''0.1''"
  by (simp add: js_eval numberPow10_23 toDisplayUnits_spec_def)

section \<open>Token lookup, normalisation and summary\<close>

lemma roundHalfEven_gt_even:
  assumes "even n"
  shows "(of_int n < (of_int (roundHalfEven x) :: rat)) = (of_int n + 1 / 2 < x)"
proof -
  define f where "f = \<lfloor>x\<rfloor>"
  define r where "r = x - of_int f"
  have r0: "0 \<le> r" and r1: "r < 1" unfolding r_def f_def by linarith+
  have x: "x = of_int f + r" by (simp add: r_def)
  have rh: "roundHalfEven x = (if r < 1 / 2 then f else if 1 / 2 < r then f + 1 else if even f then f else f + 1)"
    by (simp add: roundHalfEven_def f_def r_def Let_def)
  show ?thesis
  proof (cases "f < n")
    case True
    then have "roundHalfEven x \<le> n" unfolding rh by auto
    moreover have "x < of_int n"
    proof -
      from True have "f + 1 \<le> n" by simp
      then have "(of_int f :: rat) + 1 \<le> of_int n" by (metis of_int_1 of_int_add of_int_le_iff)
      with r1 x show ?thesis by linarith
    qed
    ultimately show ?thesis by auto
  next
    case False
    show ?thesis
    proof (cases "f = n")
      case True
      then have "roundHalfEven x = (if r \<le> 1 / 2 then n else n + 1)"
        unfolding rh using assms by auto
      then show ?thesis using x True by auto
    next
      case False
      with \<open>\<not> f < n\<close> have "n + 1 \<le> f" by simp
      then have le: "(of_int n :: rat) + 1 \<le> of_int f" by (metis of_int_1 of_int_add of_int_le_iff)
      have "f \<le> roundHalfEven x" unfolding rh by auto
      with \<open>n + 1 \<le> f\<close> have "n < roundHalfEven x" by simp
      moreover have "of_int n + 1 / 2 < x" using le r0 x by linarith
      ultimately show ?thesis by simp
    qed
  qed
qed

text \<open>The comparison, by the midpoint between \<open>1000000\<close> and the next binary64.\<close>

lemma greaterThan1000000_Fin: "greaterThan1000000 (Fin q) = (1000000 + 1 / 2 ^ 34 < q)"
proof -
  consider "q < 2 ^ 19" | "2 ^ 20 \<le> q" | "2 ^ 19 \<le> q" "q < 2 ^ 20" by linarith
  then show ?thesis
  proof cases
    case 1
    then show ?thesis by (simp add: greaterThan1000000_def)
  next
    case 2
    then show ?thesis by (simp add: greaterThan1000000_def)
  next
    case 3
    have e: "even (1000000 * 2 ^ 33 :: int)" by simp
    have "greaterThan1000000 (Fin q) = (1000000 * 2 ^ 33 < roundHalfEven (q * 2 ^ 33))"
      using 3 by (simp add: greaterThan1000000_def)
    also have "\<dots> = ((of_int (1000000 * 2 ^ 33) :: rat) < of_int (roundHalfEven (q * 2 ^ 33)))"
      by (simp only: of_int_less_iff)
    also have "\<dots> = (of_int (1000000 * 2 ^ 33) + 1 / 2 < q * 2 ^ 33)"
      by (rule roundHalfEven_gt_even[OF e])
    also have "\<dots> = (1000000 + 1 / 2 ^ 34 < q)"
      by (simp add: field_simps)
    finally show ?thesis .
  qed
qed

lemma greaterThan1000000_simps:
  "greaterThan1000000 NaN = False" "greaterThan1000000 PlusInfinity = True"
  "greaterThan1000000 MinusInfinity = False"
  by (simp_all add: greaterThan1000000_def)

lemma upperChar_idem: "upperChar (upperChar c) = upperChar c"
proof (cases "97 \<le> (of_char c :: nat) \<and> (of_char c :: nat) \<le> 122")
  case True
  define n where "n = (of_char c :: nat)"
  from True have n: "97 \<le> n" "n \<le> 122" by (simp_all add: n_def)
  have u: "upperChar c = char_of (n - 32)"
    using True by (simp add: upperChar_def n_def)
  have "n - 32 < 256" using n by arith
  then have o: "(of_char (char_of (n - 32)) :: nat) = n - 32" by simp
  have f: "(97 \<le> n - 32 \<and> n - 32 \<le> 122) = False" using n by arith
  have "upperChar (char_of (n - 32)) = char_of (n - 32)"
    by (simp only: upperChar_def Let_def o f if_False)
  with u show ?thesis by simp
next
  case False
  then have f: "(97 \<le> (of_char c :: nat) \<and> (of_char c :: nat) \<le> 122) = False" by simp
  have "upperChar c = c"
    by (simp only: upperChar_def Let_def f if_False)
  then show ?thesis by simp
qed

lemma toUpperCase_idem: "toUpperCase (toUpperCase s) = toUpperCase s"
  by (simp add: toUpperCase_def upperChar_idem)

lemma ARBITRUM_TOKENS_entry:
  "map_of ARBITRUM_TOKENS k = Some t \<Longrightarrow> symbol t = k \<and> (decimals t = 6 \<or> decimals t = 18)"
  by (auto simp: ARBITRUM_TOKENS_def split: if_splits)

lemma getTokenInfo_upper: "getTokenInfo (toUpperCase s) = getTokenInfo s"
  by (simp add: getTokenInfo_def toUpperCase_idem)

lemma getTokenInfo_symbol: "symbol (getTokenInfo s) = toUpperCase s"
  by (auto simp: getTokenInfo_def Let_def split: option.splits dest: ARBITRUM_TOKENS_entry)

lemma getTokenInfo_decimals: "decimals (getTokenInfo s) = 6 \<or> decimals (getTokenInfo s) = 18"
  by (auto simp: getTokenInfo_def Let_def split: option.splits dest: ARBITRUM_TOKENS_entry)

lemma getTokenInfo_decimals_le: "decimals (getTokenInfo s) \<le> 22"
  using getTokenInfo_decimals[of s] by auto

lemma takeWhile_digits_dot:
  "list_all isDigit w \<Longrightarrow> takeWhile isDigit (w @ CHR ''.'' # r) = w"
  by (simp add: list_all_iff isDigit_def takeWhile_append2)

lemma dropWhile_digits_dot:
  "list_all isDigit w \<Longrightarrow> dropWhile isDigit (w @ CHR ''.'' # r) = CHR ''.'' # r"
  by (simp add: list_all_iff isDigit_def dropWhile_append2)

lemma takeWhile_digits: "list_all isDigit w \<Longrightarrow> takeWhile isDigit w = w"
  by (simp add: list_all_iff)

lemma dropWhile_digits: "list_all isDigit w \<Longrightarrow> dropWhile isDigit w = []"
  by (simp add: list_all_iff)

lemma digit_not_I: "isDigit c \<Longrightarrow> c \<noteq> CHR ''I''"
  by (auto simp: isDigit_def)

lemma displayString_shape:
  assumes "displayString x"
  shows "matchesDigits (wholePartOf x) \<and>
         ((fractionalPartOf x = [] \<and> x = wholePartOf x \<and> js_split (CHR ''.'') x = [x]) \<or>
          (matchesDigits (fractionalPartOf x) \<and> x = wholePartOf x @ CHR ''.'' # fractionalPartOf x
           \<and> js_split (CHR ''.'') x = [wholePartOf x, fractionalPartOf x]))"
  using assms js_split_one[of "CHR ''.''" x] js_split_two[of "CHR ''.''" x]
  by (auto simp: displayString_def wholePartOf_def fractionalPartOf_def split: list.splits)

lemma strUnsignedDecimalLiteral_whole:
  assumes "matchesDigits w"
  shows "strUnsignedDecimalLiteral w = Fin (of_nat (digitsValue w))"
proof -
  from assms obtain c r where w: "w = c # r" and c: "isDigit c" and d: "list_all isDigit w"
    by (cases w) (auto simp: matchesDigits_def)
  have i: "take 8 w \<noteq> ''Infinity''" using digit_not_I[OF c] w by simp
  show ?thesis
    using i assms
    by (simp add: strUnsignedDecimalLiteral_def takeWhile_digits[OF d] dropWhile_digits[OF d]
        exponentPart_def scale10_def matchesDigits_def)
qed

lemma strUnsignedDecimalLiteral_frac:
  assumes "matchesDigits w" "matchesDigits f"
  shows "strUnsignedDecimalLiteral (w @ CHR ''.'' # f) =
         Fin (of_nat (digitsValue w) + of_nat (digitsValue f) / 10 ^ length f)"
proof -
  from assms obtain c r where w: "w = c # r" and c: "isDigit c" and d: "list_all isDigit w"
    by (cases w) (auto simp: matchesDigits_def)
  from assms have df: "list_all isDigit f" and fne: "f \<noteq> []" by (simp_all add: matchesDigits_def)
  have i: "take 8 (w @ CHR ''.'' # f) \<noteq> ''Infinity''" using digit_not_I[OF c] w by simp
  have v: "scale10 (digitsValue (w @ f)) (- int (length f)) =
      of_nat (digitsValue w) + of_nat (digitsValue f) / 10 ^ length f"
    using fne by (simp add: scale10_def digitsValue_append add_divide_distrib)
  show ?thesis
    using i assms fne
    by (simp add: strUnsignedDecimalLiteral_def takeWhile_digits_dot[OF d] dropWhile_digits_dot[OF d]
        takeWhile_digits[OF df] dropWhile_digits[OF df] exponentPart_def matchesDigits_def v)
qed

lemma parseFloat_starts_digit:
  "isDigit c \<Longrightarrow> parseFloat (c # r) = strUnsignedDecimalLiteral (c # r)"
  using isDigit_not_ws[of c] isDigit_chars[of c] by (simp add: parseFloat_def)

lemma parseFloat_displayString:
  assumes "displayString x"
  shows "parseFloat x = Fin (numericValue x)"
proof -
  from displayString_shape[OF assms] have mw: "matchesDigits (wholePartOf x)" by simp
  then obtain c r where w: "wholePartOf x = c # r" and c: "isDigit c"
    by (cases "wholePartOf x") (auto simp: matchesDigits_def)
  from displayString_shape[OF assms] show ?thesis
  proof (elim conjE disjE)
    assume a: "fractionalPartOf x = []" "x = wholePartOf x"
    then have "parseFloat x = strUnsignedDecimalLiteral (wholePartOf x)"
      using parseFloat_starts_digit[OF c, of r] w by simp
    then show ?thesis
      using a(1) by (simp add: strUnsignedDecimalLiteral_whole[OF mw] numericValue_def digitsValue_Nil)
  next
    assume a: "matchesDigits (fractionalPartOf x)" "x = wholePartOf x @ CHR ''.'' # fractionalPartOf x"
    have "parseFloat (wholePartOf x @ CHR ''.'' # fractionalPartOf x) =
          strUnsignedDecimalLiteral (wholePartOf x @ CHR ''.'' # fractionalPartOf x)"
      using parseFloat_starts_digit[OF c, of "r @ CHR ''.'' # fractionalPartOf x"] w by simp
    then have "parseFloat x = strUnsignedDecimalLiteral (wholePartOf x @ CHR ''.'' # fractionalPartOf x)"
      using a(2) by simp
    then show ?thesis
      by (simp add: strUnsignedDecimalLiteral_frac[OF mw a(1)] numericValue_def)
  qed
qed

lemmas summary_eval =
  js_eval toUpperCase_def upperChar_def char_of_eq_iff getTokenInfo_def ARBITRUM_TOKENS_def
  parseFloat_def strUnsignedDecimalLiteral_def exponentPart_def scale10_def negateNumber_def
  greaterThan1000000_Fin greaterThan1000000_simps formatTransactionData_def
  createTransactionSummary_def Let_def
  numericValue_def toDisplayUnits_spec_def capitalize_def

lemma formatTransactionData_small:
  "\<not> greaterThan1000000 (parseFloat (amount d)) \<Longrightarrow> formatTransactionData d = Inr d"
  by (simp add: formatTransactionData_def Let_def)

lemma formatTransactionData_large:
  "greaterThan1000000 (parseFloat (amount d)) \<Longrightarrow>
   formatTransactionData d =
     (case BigInt_string (wholePartOf (amount d)) of
        Inl e \<Rightarrow> Inl e
      | Inr b \<Rightarrow>
          (case formatTokenAmount (AmountBigInt b) (decimals (getTokenInfo (tokenName d))) of
             Inl e \<Rightarrow> Inl e
           | Inr converted \<Rightarrow> Inr (d\<lparr>amount := converted\<rparr>)))"
  using js_split_not_Nil[of "CHR ''.''" "amount d"]
  by (cases "js_split (CHR ''.'') (amount d)")
     (simp_all add: formatTransactionData_def wholePartOf_def Let_def)

lemma formatTransactionData_displayString:
  assumes "displayString (amount d)"
  shows "formatTransactionData d =
      (if 1000000 + 1 / 2 ^ 34 < numericValue (amount d)
       then Inr (d\<lparr>amount := toDisplayUnits_spec (digitsValue (wholePartOf (amount d)))
                                  (decimals (getTokenInfo (tokenName d)))\<rparr>)
       else Inr d)"
proof -
  from displayString_shape[OF assms] have mw: "matchesDigits (wholePartOf (amount d))" by simp
  then have b: "BigInt_string (wholePartOf (amount d)) = Inr (int (digitsValue (wholePartOf (amount d))))"
    by (simp add: BigInt_string_digits matchesDigits_def)
  have g: "greaterThan1000000 (parseFloat (amount d)) = (1000000 + 1 / 2 ^ 34 < numericValue (amount d))"
    by (simp add: parseFloat_displayString[OF assms] greaterThan1000000_Fin)
  obtain w ps where s: "js_split (CHR ''.'') (amount d) = w # ps" and w: "w = wholePartOf (amount d)"
    using js_split_not_Nil[of "CHR ''.''" "amount d"]
    by (cases "js_split (CHR ''.'') (amount d)") (auto simp: wholePartOf_def)
  show ?thesis
    using b
    by (simp add: formatTransactionData_def Let_def g s w
        formatTokenAmount_spec[OF getTokenInfo_decimals_le])
qed

lemma formatTransactionData_fields:
  "formatTransactionData d = Inr n \<Longrightarrow> action n = action d \<and> tokenName n = tokenName d"
  by (auto simp: formatTransactionData_def Let_def split: if_splits list.splits sum.splits)

lemma capitalize_charAt: "toUpperCase (take 1 a) @ drop 1 a = capitalize a"
  by (cases a) (simp_all add: toUpperCase_def capitalize_def)

lemma createTransactionSummary_cases:
  "createTransactionSummary d =
     (case formatTransactionData d of
        Inl e \<Rightarrow> Inl e
      | Inr n \<Rightarrow> Inr (capitalize (action d) @ '' '' @ amount n @ '' '' @ toUpperCase (tokenName d)))"
proof (cases "formatTransactionData d")
  case (Inl e)
  then show ?thesis by (simp add: createTransactionSummary_def)
next
  case (Inr n)
  from formatTransactionData_fields[OF Inr] have a: "action n = action d" by simp
  have "createTransactionSummary d =
      Inr ((toUpperCase (take 1 (action n)) @ drop 1 (action n)) @ '' '' @ amount n @ '' ''
           @ symbol (getTokenInfo (tokenName d)))"
    using Inr by (simp add: createTransactionSummary_def)
  then show ?thesis
    unfolding capitalize_charAt a getTokenInfo_symbol using Inr by simp
qed

lemma formatTokenAmount_total:
  assumes "d \<le> 22"
  shows "\<exists>r. formatTokenAmount (AmountBigInt b) d = Inr r"
  by (simp add: formatTokenAmount_def numberPow10_exact[OF assms] BigInt_number_def Let_def)

lemma formatTransactionData_raises:
  assumes "formatTransactionData d = Inl e"
  shows "greaterThan1000000 (parseFloat (amount d))
         \<and> BigInt_string (wholePartOf (amount d)) = Inl e \<and> \<not> displayString (amount d)"
proof -
  have g: "greaterThan1000000 (parseFloat (amount d))"
    using assms formatTransactionData_small[of d] by (cases "greaterThan1000000 (parseFloat (amount d))") simp_all
  have b: "BigInt_string (wholePartOf (amount d)) = Inl e"
  proof (cases "BigInt_string (wholePartOf (amount d))")
    case (Inl x)
    with assms formatTransactionData_large[OF g] show ?thesis by simp
  next
    case (Inr i)
    obtain r where "formatTokenAmount (AmountBigInt i) (decimals (getTokenInfo (tokenName d))) = Inr r"
      using formatTokenAmount_total[OF getTokenInfo_decimals_le] by blast
    with Inr assms formatTransactionData_large[OF g] show ?thesis by simp
  qed
  have "\<not> displayString (amount d)"
    using assms formatTransactionData_displayString[of d] by (auto split: if_splits)
  with g b show ?thesis by simp
qed

lemma formatTransactionData_frame:
  "formatTransactionData d = Inr n \<Longrightarrow> n = d\<lparr>amount := amount n\<rparr>"
  by (auto simp: formatTransactionData_def Let_def split: if_splits list.splits sum.splits)

text \<open>
  C3, as stated: the amount is converted by \<open>toDisplayUnits\<close> exactly when its numeric value
  exceeds 1000000.  It is not: the value of \<open>1000000.00000000001\<close> exceeds 1000000 and the
  data comes back unchanged, the Number read from it being 1000000; the value of \<open>1e7\<close>
  exceeds it too and the call raises, converting nothing.
\<close>

theorem normalizeTransactionAmount_edge:
  "displayString ''1000000.00000000001''
   \<and> 1000000 < numericValue ''1000000.00000000001''
   \<and> formatTransactionData \<lparr>tokenName = ''USDC'', amount = ''1000000.00000000001'',
         action = ''supply'', chainId = ''42161'', txPlan = []\<rparr>
       = Inr \<lparr>tokenName = ''USDC'', amount = ''1000000.00000000001'',
         action = ''supply'', chainId = ''42161'', txPlan = []\<rparr>
   \<and> parseFloat ''1e7'' = Fin 10000000
   \<and> formatTransactionData \<lparr>tokenName = ''USDC'', amount = ''1e7'',
         action = ''supply'', chainId = ''42161'', txPlan = []\<rparr>
       = Inl SyntaxError"
  by (simp add: summary_eval)

text \<open>
  C3, amended: the amount is converted exactly when the Number that \<open>parseFloat\<close> reads
  from it exceeds 1000000; for a display string that is when its value exceeds
  \<open>1000000 + 2^-34\<close>, the midpoint of 1000000 and the next binary64.  What is converted is
  the text before the first point, read by \<open>BigInt\<close>: the amount becomes \<open>toDisplayUnits\<close>
  of that integer at the token's decimals, the fractional digits are dropped, and the
  call raises when \<open>BigInt\<close> rejects the text, which it never does on a display string.
  Otherwise, so for every display string of value at most 1000000, the data is returned
  unchanged.  No other field is ever changed.
\<close>

theorem normalizeTransactionAmount_threshold:
  "(\<not> greaterThan1000000 (parseFloat (amount d)) \<longrightarrow> formatTransactionData d = Inr d)
   \<and> (greaterThan1000000 (parseFloat (amount d)) \<longrightarrow>
        formatTransactionData d =
          (case BigInt_string (wholePartOf (amount d)) of
             Inl e \<Rightarrow> Inl e
           | Inr b \<Rightarrow>
               (case formatTokenAmount (AmountBigInt b) (decimals (getTokenInfo (tokenName d))) of
                  Inl e \<Rightarrow> Inl e
                | Inr converted \<Rightarrow> Inr (d\<lparr>amount := converted\<rparr>))))
   \<and> (displayString (amount d) \<longrightarrow>
        parseFloat (amount d) = Fin (numericValue (amount d))
        \<and> formatTransactionData d =
            (if 1000000 + 1 / 2 ^ 34 < numericValue (amount d)
             then Inr (d\<lparr>amount := toDisplayUnits_spec (digitsValue (wholePartOf (amount d)))
                                        (decimals (getTokenInfo (tokenName d)))\<rparr>)
             else Inr d)
        \<and> formatTokenAmount (AmountBigInt (int (digitsValue (wholePartOf (amount d)))))
              (decimals (getTokenInfo (tokenName d)))
            = Inr (toDisplayUnits_spec (digitsValue (wholePartOf (amount d)))
                     (decimals (getTokenInfo (tokenName d)))))
   \<and> (displayString (amount d) \<and> numericValue (amount d) \<le> 1000000 \<longrightarrow>
        formatTransactionData d = Inr d)
   \<and> (formatTransactionData d = Inr n \<longrightarrow> n = d\<lparr>amount := amount n\<rparr>)
   \<and> (formatTransactionData d = Inl e \<longrightarrow>
        greaterThan1000000 (parseFloat (amount d))
        \<and> BigInt_string (wholePartOf (amount d)) = Inl e \<and> \<not> displayString (amount d))"
proof -
  have le: "displayString (amount d) \<and> numericValue (amount d) \<le> 1000000 \<longrightarrow>
        formatTransactionData d = Inr d"
  proof
    assume a: "displayString (amount d) \<and> numericValue (amount d) \<le> 1000000"
    have "(0::rat) < 1 / 2 ^ 34" by simp
    with a have "\<not> 1000000 + 1 / 2 ^ 34 < numericValue (amount d)" by linarith
    with a show "formatTransactionData d = Inr d"
      using formatTransactionData_displayString[of d] by simp
  qed
  show ?thesis
    using formatTransactionData_small[of d] formatTransactionData_large[of d]
      formatTransactionData_displayString[of d] parseFloat_displayString[of "amount d"]
      formatTokenAmount_spec[OF getTokenInfo_decimals_le, of "digitsValue (wholePartOf (amount d))" "tokenName d"]
      le formatTransactionData_frame[of d n] formatTransactionData_raises[of d e]
    by blast
qed

theorem normalizeTransactionAmount_threshold_witness:
  "\<not> greaterThan1000000 (parseFloat ''0.1'') \<and> displayString ''0.1''
   \<and> numericValue ''0.1'' \<le> 1000000
   \<and> formatTransactionData \<lparr>tokenName = ''USDC'', amount = ''0.1'', action = ''supply'',
         chainId = ''42161'', txPlan = []\<rparr>
       = Inr \<lparr>tokenName = ''USDC'', amount = ''0.1'', action = ''supply'',
         chainId = ''42161'', txPlan = []\<rparr>
   \<and> displayString ''2500000.75'' \<and> numericValue ''2500000.75'' = 250000075 / 100
   \<and> greaterThan1000000 (parseFloat ''2500000.75'')
   \<and> formatTransactionData \<lparr>tokenName = ''USDC'', amount = ''2500000.75'', action = ''supply'',
         chainId = ''42161'', txPlan = []\<rparr>
       = Inr \<lparr>tokenName = ''USDC'', amount = ''2.5'', action = ''supply'',
         chainId = ''42161'', txPlan = []\<rparr>
   \<and> formatTransactionData \<lparr>tokenName = ''USDC'', amount = ''1e7'', action = ''supply'',
         chainId = ''42161'', txPlan = []\<rparr> = Inl SyntaxError
   \<and> greaterThan1000000 (parseFloat ''1e7'') \<and> BigInt_string ''1e7'' = Inl SyntaxError
   \<and> \<not> displayString ''1e7''"
proof -
  let ?a = "\<lparr>tokenName = ''USDC'', amount = ''0.1'', action = ''supply'',
         chainId = ''42161'', txPlan = []\<rparr>"
  let ?b = "\<lparr>tokenName = ''USDC'', amount = ''2500000.75'', action = ''supply'',
         chainId = ''42161'', txPlan = []\<rparr>"
  let ?c = "\<lparr>tokenName = ''USDC'', amount = ''1e7'', action = ''supply'',
         chainId = ''42161'', txPlan = []\<rparr>"
  have h1: "\<not> greaterThan1000000 (parseFloat ''0.1'')" by (simp add: summary_eval)
  have h2: "displayString ''0.1''" "displayString ''2500000.75''" by (simp_all add: summary_eval)
  have h3: "numericValue ''0.1'' \<le> 1000000" by (simp add: summary_eval)
  have v: "numericValue ''2500000.75'' = 250000075 / 100" by (simp add: summary_eval)
  have g: "greaterThan1000000 (parseFloat ''2500000.75'')" by (simp add: summary_eval)
  have t: "toDisplayUnits_spec (digitsValue (wholePartOf ''2500000.75'')) (decimals (getTokenInfo ''USDC'')) = ''2.5''"
    by (simp add: summary_eval)
  have w: "wholePartOf ''1e7'' = ''1e7''" by (simp add: summary_eval)
  have r: "formatTransactionData ?c = Inl SyntaxError" by (simp add: summary_eval)
  have a: "formatTransactionData ?a = Inr ?a"
    using normalizeTransactionAmount_threshold[of ?a ?a SyntaxError] h2(1) h3 by simp
  have b: "formatTransactionData ?b = Inr (?b\<lparr>amount := ''2.5''\<rparr>)"
    using normalizeTransactionAmount_threshold[of ?b ?b SyntaxError] h2 v t by simp
  from normalizeTransactionAmount_threshold[of ?c ?c SyntaxError] r
  have "greaterThan1000000 (parseFloat (amount ?c))
      \<and> BigInt_string (wholePartOf (amount ?c)) = Inl SyntaxError
      \<and> \<not> displayString (amount ?c)"
    by blast
  then have c: "greaterThan1000000 (parseFloat ''1e7'') \<and> BigInt_string ''1e7'' = Inl SyntaxError
      \<and> \<not> displayString ''1e7''"
    by (simp add: w)
  from h1 h2 h3 v g a b c r show ?thesis by simp
qed

text \<open>
  C9: the summary is a function of the transaction data alone: the capitalised action,
  the normalised amount and the upper-cased token symbol, separated by single spaces.
  It raises only if the normalisation does, which it does not on a display string.
  \<open>summarize({action: "supply", amount: "0.1", tokenName: "USDC"})\<close> is
  \<open>Supply 0.1 USDC\<close>, whatever the other fields hold.
\<close>

theorem summarize_format:
  "createTransactionSummary d =
     (case formatTransactionData d of
        Inl e \<Rightarrow> Inl e
      | Inr n \<Rightarrow> Inr (capitalize (action d) @ '' '' @ amount n @ '' '' @ toUpperCase (tokenName d)))
   \<and> (displayString (amount d) \<longrightarrow> (\<exists>s. createTransactionSummary d = Inr s))
   \<and> createTransactionSummary
        \<lparr>tokenName = ''USDC'', amount = ''0.1'', action = ''supply'', chainId = c, txPlan = p\<rparr>
       = Inr ''Supply 0.1 USDC''"
proof (intro conjI impI)
  show f: "createTransactionSummary d =
     (case formatTransactionData d of
        Inl e \<Rightarrow> Inl e
      | Inr n \<Rightarrow> Inr (capitalize (action d) @ '' '' @ amount n @ '' '' @ toUpperCase (tokenName d)))"
    by (rule createTransactionSummary_cases)
  assume "displayString (amount d)"
  from formatTransactionData_displayString[OF this]
  have "\<exists>n. formatTransactionData d = Inr n" by (simp split: if_splits)
  with f show "\<exists>s. createTransactionSummary d = Inr s" by (auto split: sum.splits)
next
  show "createTransactionSummary
        \<lparr>tokenName = ''USDC'', amount = ''0.1'', action = ''supply'', chainId = c, txPlan = p\<rparr>
       = Inr ''Supply 0.1 USDC''"
    by (simp add: summary_eval)
qed

theorem summarize_format_witness:
  "displayString ''2500000.75''
   \<and> createTransactionSummary \<lparr>tokenName = ''usdc'', amount = ''2500000.75'', action = ''borrow'',
        chainId = ''42161'', txPlan = []\<rparr> = Inr ''Borrow 2.5 USDC''"
proof -
  let ?b = "\<lparr>tokenName = ''usdc'', amount = ''2500000.75'', action = ''borrow'',
        chainId = ''42161'', txPlan = []\<rparr>"
  have h: "displayString (amount ?b)" by (simp add: summary_eval)
  have f: "formatTransactionData ?b = Inr (?b\<lparr>amount := ''2.5''\<rparr>)" by (simp add: summary_eval)
  have c: "capitalize ''borrow'' = ''Borrow''" "toUpperCase ''usdc'' = ''USDC''"
    by (simp_all add: summary_eval)
  from summarize_format[of ?b] h f c show ?thesis by simp
qed

text \<open>
  C10: the lookup does not depend on the case of the symbol, and the symbol of the
  result is the upper-cased argument: the table's entry when the table has one, and the
  upper-cased argument with 18 decimals and no address otherwise.  A summary therefore
  ends in the upper-cased token name.
\<close>

theorem getTokenInfo_case_insensitive:
  "getTokenInfo s = getTokenInfo (toUpperCase s)
   \<and> symbol (getTokenInfo s) = toUpperCase s
   \<and> (\<forall>t. map_of ARBITRUM_TOKENS (toUpperCase s) = Some t \<longrightarrow> getTokenInfo s = t)
   \<and> (map_of ARBITRUM_TOKENS (toUpperCase s) = None \<longrightarrow>
        getTokenInfo s = \<lparr>symbol = toUpperCase s, decimals = 18, address = None\<rparr>)
   \<and> (\<forall>out. createTransactionSummary d = Inr out \<longrightarrow>
        (\<exists>pre. out = pre @ '' '' @ toUpperCase (tokenName d)))"
proof (intro conjI allI impI)
  show "getTokenInfo s = getTokenInfo (toUpperCase s)" by (simp add: getTokenInfo_upper)
  show "symbol (getTokenInfo s) = toUpperCase s" by (rule getTokenInfo_symbol)
next
  fix t assume "map_of ARBITRUM_TOKENS (toUpperCase s) = Some t"
  then show "getTokenInfo s = t" by (simp add: getTokenInfo_def)
next
  assume "map_of ARBITRUM_TOKENS (toUpperCase s) = None"
  then show "getTokenInfo s = \<lparr>symbol = toUpperCase s, decimals = 18, address = None\<rparr>"
    by (simp add: getTokenInfo_def)
next
  fix out assume o: "createTransactionSummary d = Inr out"
  show "\<exists>pre. out = pre @ '' '' @ toUpperCase (tokenName d)"
  proof (cases "formatTransactionData d")
    case (Inl e)
    with o show ?thesis by (simp add: createTransactionSummary_cases)
  next
    case (Inr n)
    with o have "out = (capitalize (action d) @ '' '' @ amount n)
        @ '' '' @ toUpperCase (tokenName d)"
      by (simp add: createTransactionSummary_cases)
    then show ?thesis by blast
  qed
qed

theorem getTokenInfo_case_insensitive_witness:
  "map_of ARBITRUM_TOKENS (toUpperCase ''usdc'')
     = Some \<lparr>symbol = ''USDC'', decimals = 6,
              address = Some ''0xaf88d065e77c8cC2239327C5EDb3A432268e5831''\<rparr>
   \<and> getTokenInfo ''usdc'' = getTokenInfo ''USDC''
   \<and> getTokenInfo ''usdc'' = \<lparr>symbol = ''USDC'', decimals = 6,
              address = Some ''0xaf88d065e77c8cC2239327C5EDb3A432268e5831''\<rparr>
   \<and> map_of ARBITRUM_TOKENS (toUpperCase ''dai'') = None
   \<and> getTokenInfo ''dai'' = \<lparr>symbol = ''DAI'', decimals = 18, address = None\<rparr>
   \<and> createTransactionSummary \<lparr>tokenName = ''usdc'', amount = ''0.1'', action = ''supply'',
        chainId = ''42161'', txPlan = []\<rparr> = Inr ''Supply 0.1 USDC''
   \<and> (\<exists>pre. ''Supply 0.1 USDC'' = pre @ '' '' @ toUpperCase ''usdc'')"
proof -
  let ?d = "\<lparr>tokenName = ''usdc'', amount = ''0.1'', action = ''supply'',
        chainId = ''42161'', txPlan = []\<rparr>"
  have u: "toUpperCase ''usdc'' = ''USDC''" "toUpperCase ''dai'' = ''DAI''"
    by (simp_all add: summary_eval)
  have m: "map_of ARBITRUM_TOKENS ''USDC''
     = Some \<lparr>symbol = ''USDC'', decimals = 6,
              address = Some ''0xaf88d065e77c8cC2239327C5EDb3A432268e5831''\<rparr>"
    "map_of ARBITRUM_TOKENS ''DAI'' = None"
    by (simp_all add: ARBITRUM_TOKENS_def)
  have c: "createTransactionSummary ?d = Inr ''Supply 0.1 USDC''"
    by (simp add: summary_eval)
  note i = getTokenInfo_case_insensitive[of "''usdc''" ?d, unfolded u m c]
  have 1: "getTokenInfo ''usdc'' = getTokenInfo ''USDC''"
    using i by blast
  have 2: "getTokenInfo ''usdc'' = \<lparr>symbol = ''USDC'', decimals = 6,
              address = Some ''0xaf88d065e77c8cC2239327C5EDb3A432268e5831''\<rparr>"
    using i by blast
  have 3: "\<exists>pre. ''Supply 0.1 USDC'' = pre @ '' '' @ toUpperCase ''usdc''"
    using i unfolding TransactionData.simps u by blast
  note j = getTokenInfo_case_insensitive[of "''dai''" ?d, unfolded u m]
  have 4: "getTokenInfo ''dai'' = \<lparr>symbol = ''DAI'', decimals = 18, address = None\<rparr>"
    using j by blast
  show ?thesis
    unfolding u using m c 1 2 3 4 unfolding u by blast
qed

section \<open>The plan executor and the chain guard\<close>

lemmas chat_eval =
  summary_eval run_def step_def dispatch_def afterRender_def watched_def confirmationEffect_def
  handleTransactionReject_def onSuccess_def handleTransactionApprove_def catchSendFailure_def
  handleSubmit_def sendInstruction_def handleReply_def receivePlan_def isTxConfirmed_def
  isTxPending_def addMessage_def initialState_def arbitrum_id_def
  submitCalls_def confirmationsObserved_def switchRequests_def instructionsSent_def
  approvalStep_def supplyStep_def twoStepPlan_def planReceived_def leftArbitrum_def

text \<open>
  C1 in a session with the two-step plan: the user approves, the wallet returns the hash
  of step 0, and the user approves again.  Step 1 is submitted, and no confirmation has
  been observed.  The approve handler does not read the confirmations at all.
\<close>

theorem step_1_submitted_before_confirmation:
  "submitCalls (effects (run (planReceived @ [Approve CallReturns, WalletHash ''0xh0'',
       Approve CallReturns]) initialState)) = [0, 1]
   \<and> confirmationsObserved (effects (run (planReceived @ [Approve CallReturns,
       WalletHash ''0xh0'', Approve CallReturns]) initialState)) = []
   \<and> handleTransactionApprove outcome (s\<lparr>confirmedHashes := hs\<rparr>)
       = (handleTransactionApprove outcome s)\<lparr>confirmedHashes := hs\<rparr>"
proof (intro conjI)
  show "submitCalls (effects (run (planReceived @ [Approve CallReturns, WalletHash ''0xh0'',
       Approve CallReturns]) initialState)) = [0, 1]"
    by (simp add: chat_eval)
  show "confirmationsObserved (effects (run (planReceived @ [Approve CallReturns,
       WalletHash ''0xh0'', Approve CallReturns]) initialState)) = []"
    by (simp add: chat_eval)
  show "handleTransactionApprove outcome (s\<lparr>confirmedHashes := hs\<rparr>)
       = (handleTransactionApprove outcome s)\<lparr>confirmedHashes := hs\<rparr>"
    by (simp add: handleTransactionApprove_def catchSendFailure_def addMessage_def Let_def
        split: option.splits sum.splits call_outcome.splits)
qed

text \<open>
  C7 in a session with the two-step plan: the user approves, the wallet returns the hash
  of step 0 and its receipt arrives.  The state is reset (no plan, index 0, no hash)
  although only step 0 was ever submitted, and a further approval does nothing.
  Rejecting the plan instead resets the plan and the index with no submission.
\<close>

theorem reset_before_final_step:
  "pendingTransaction (run (planReceived @ [Approve CallReturns, WalletHash ''0xh0'',
       Receipt ''0xh0'']) initialState) = None
   \<and> currentTxIndex (run (planReceived @ [Approve CallReturns, WalletHash ''0xh0'',
       Receipt ''0xh0'']) initialState) = 0
   \<and> txHash (run (planReceived @ [Approve CallReturns, WalletHash ''0xh0'',
       Receipt ''0xh0'']) initialState) = None
   \<and> submitCalls (effects (run (planReceived @ [Approve CallReturns, WalletHash ''0xh0'',
       Receipt ''0xh0'', Approve CallReturns]) initialState)) = [0]
   \<and> pendingTransaction (run (planReceived @ [Reject]) initialState) = None
   \<and> currentTxIndex (run (planReceived @ [Reject]) initialState) = 0
   \<and> submitCalls (effects (run (planReceived @ [Reject]) initialState)) = []"
  by (simp add: chat_eval)

lemma effects_addMessage: "effects (addMessage who m s) = effects s @ [AddMessage who m]"
  by (simp add: addMessage_def)

lemma receivePlan_effects:
  "\<exists>m. effects (receivePlan d s) = effects s @ [AddMessage SystemMessage m]"
  by (simp add: receivePlan_def addMessage_def split: sum.splits)

lemma handleReply_effects:
  "\<exists>ms. effects (handleReply reply s) = effects s @ ms \<and> submitCalls ms = []
     \<and> switchRequests ms = []"
proof (cases reply)
  case (CompletedArtifact t a)
  show ?thesis
  proof (cases a)
    case (PlanArtifact d)
    obtain m where "effects (receivePlan d (addMessage AssistantMessage (AgentText t) s))
        = effects s @ [AddMessage AssistantMessage (AgentText t), AddMessage SystemMessage m]"
      using receivePlan_effects[of d "addMessage AssistantMessage (AgentText t) s"]
      by (auto simp: effects_addMessage)
    then show ?thesis
      using CompletedArtifact PlanArtifact
      by (simp add: handleReply_def submitCalls_def switchRequests_def)
  qed (simp_all add: CompletedArtifact handleReply_def addMessage_def submitCalls_def
      switchRequests_def)
qed (simp_all add: handleReply_def addMessage_def submitCalls_def switchRequests_def)

lemma sendInstruction_effects:
  "\<exists>ms. effects (sendInstruction reply s) = effects s @ ms \<and> submitCalls ms = []
     \<and> switchRequests ms = []"
proof -
  let ?u = "trimString (inputValue s)"
  let ?s2 = "(addMessage UserMessage (Typed ?u) s)
      \<lparr>inputValue := [], isLoading := True,
        effects := effects (addMessage UserMessage (Typed ?u) s) @ [Fetch ?u]\<rparr>"
  obtain ms where ms: "effects (handleReply reply ?s2) = effects ?s2 @ ms"
      "submitCalls ms = []" "switchRequests ms = []"
    using handleReply_effects[of reply ?s2] by blast
  have "effects (sendInstruction reply s)
      = effects s @ (AddMessage UserMessage (Typed ?u) # Fetch ?u # ms)"
    using ms(1) by (simp add: sendInstruction_def Let_def addMessage_def)
  moreover have "submitCalls (AddMessage UserMessage (Typed ?u) # Fetch ?u # ms) = []"
    "switchRequests (AddMessage UserMessage (Typed ?u) # Fetch ?u # ms) = []"
    using ms(2,3) by (simp_all add: submitCalls_def switchRequests_def)
  ultimately show ?thesis by blast
qed

lemma handleSubmit_wrong_network:
  assumes "trimString (inputValue s) \<noteq> []" and "\<not> isLoading s" and "isConnected s"
    and "activeChain s \<noteq> arbitrum_id"
  shows "\<exists>rest. effects (handleSubmit sw reply s)
            = effects s @ AddMessage SystemMessage SwitchingToArbitrum
                # SwitchChain arbitrum_id # AddMessage SystemMessage SwitchedToArbitrum
                # AddMessage UserMessage (Typed (trimString (inputValue s)))
                # Fetch (trimString (inputValue s)) # rest
          \<and> submitCalls rest = [] \<and> switchRequests rest = []"
proof -
  let ?u = "trimString (inputValue s)"
  let ?s3 = "addMessage SystemMessage SwitchedToArbitrum
      ((addMessage SystemMessage SwitchingToArbitrum s)
         \<lparr>effects := effects (addMessage SystemMessage SwitchingToArbitrum s)
            @ [SwitchChain arbitrum_id]\<rparr>)"
  let ?s5 = "(addMessage UserMessage (Typed ?u) ?s3)
      \<lparr>inputValue := [], isLoading := True,
        effects := effects (addMessage UserMessage (Typed ?u) ?s3) @ [Fetch ?u]\<rparr>"
  obtain ms where ms: "effects (handleReply reply ?s5) = effects ?s5 @ ms"
      "submitCalls ms = []" "switchRequests ms = []"
    using handleReply_effects[of reply ?s5] by blast
  have "effects (handleSubmit sw reply s)
      = effects s @ AddMessage SystemMessage SwitchingToArbitrum # SwitchChain arbitrum_id
          # AddMessage SystemMessage SwitchedToArbitrum # AddMessage UserMessage (Typed ?u)
          # Fetch ?u # ms"
    using assms ms(1)
    by (simp add: handleSubmit_def sendInstruction_def Let_def addMessage_def)
  with ms(2,3) show ?thesis by blast
qed


end
